theory Spec2Isabelle
  imports Complex_Main
begin

section \<open>Numbers and arrays of the worker script\<close>

text \<open>
  The diarization worker (the script \<^verbatim>\<open>workerScript\<close> of the worker-isolated
  \<^verbatim>\<open>useDiarization\<close> hook) computes on JavaScript numbers. A number is modelled as an
  exact real or NaN: NaN is kept because the guards of \<^verbatim>\<open>processFrame\<close> and
  \<^verbatim>\<open>Array.indexOf\<close> depend on it; rounding and the infinities are not modelled.
  Reading an array beyond its length gives \<^verbatim>\<open>undefined\<close>, which is NaN in arithmetic.
\<close>

datatype jsnum = Num real | NaN

fun jadd :: "jsnum \<Rightarrow> jsnum \<Rightarrow> jsnum" where
  "jadd (Num a) (Num b) = Num (a + b)"
| "jadd _ _ = NaN"

fun jsub :: "jsnum \<Rightarrow> jsnum \<Rightarrow> jsnum" where
  "jsub (Num a) (Num b) = Num (a - b)"
| "jsub _ _ = NaN"

fun jmul :: "jsnum \<Rightarrow> jsnum \<Rightarrow> jsnum" where
  "jmul (Num a) (Num b) = Num (a * b)"
| "jmul _ _ = NaN"

text \<open>The script divides by an array length or by a product it has tested against zero;
  \<open>0 / 0\<close> is NaN, and the quotient of another number by zero (an infinity in
  JavaScript) is not reached by the script and stands as NaN here.\<close>

fun jdiv :: "jsnum \<Rightarrow> jsnum \<Rightarrow> jsnum" where
  "jdiv (Num a) (Num b) = (if b = 0 then NaN else Num (a / b))"
| "jdiv _ _ = NaN"

fun jsqrt :: "jsnum \<Rightarrow> jsnum" where
  "jsqrt (Num a) = (if a < 0 then NaN else Num (sqrt a))"
| "jsqrt NaN = NaN"

fun jmin :: "jsnum \<Rightarrow> jsnum \<Rightarrow> jsnum" where
  "jmin (Num a) (Num b) = Num (min a b)"
| "jmin _ _ = NaN"

text \<open>\<^verbatim>\<open>x > c\<close> for a number \<open>x\<close> and a constant \<open>c\<close>: false on NaN.\<close>

fun jgt :: "jsnum \<Rightarrow> real \<Rightarrow> bool" where
  "jgt (Num a) c = (a > c)"
| "jgt NaN c = False"

text \<open>\<^verbatim>\<open>===\<close> on numbers: NaN equals nothing, itself included.\<close>

fun strictEq :: "jsnum \<Rightarrow> jsnum \<Rightarrow> bool" where
  "strictEq (Num a) (Num b) = (a = b)"
| "strictEq _ _ = False"

definition at_js :: "jsnum list \<Rightarrow> nat \<Rightarrow> jsnum" where
  "at_js xs i = (if i < length xs then xs ! i else NaN)"

text \<open>Writing \<^verbatim>\<open>xs[i] = v\<close> at or beyond the length extends a JavaScript array, the
  skipped places being holes.\<close>

definition put_js :: "jsnum list \<Rightarrow> nat \<Rightarrow> jsnum \<Rightarrow> jsnum list" where
  "put_js xs i v =
     (if i < length xs then xs[i := v] else xs @ replicate (i - length xs) NaN @ [v])"

text \<open>\<^verbatim>\<open>Math.min(...ds)\<close>: NaN as soon as one argument is NaN. With no argument
  JavaScript answers Infinity; the script calls it with one distance per centroid and
  at least one centroid, so the empty case is not reached (it stands as NaN here).\<close>

definition Math_min :: "jsnum list \<Rightarrow> jsnum" where
  "Math_min ds = (case ds of [] \<Rightarrow> NaN | d # ds' \<Rightarrow> fold (\<lambda>x m. jmin m x) ds' d)"

text \<open>\<^verbatim>\<open>ds.indexOf(v)\<close>: the first index whose element is \<^verbatim>\<open>===\<close> to \<open>v\<close>; \<open>None\<close> is
  the answer \<open>-1\<close>.\<close>

fun indexOf :: "jsnum list \<Rightarrow> jsnum \<Rightarrow> nat option" where
  "indexOf [] v = None"
| "indexOf (x # xs) v = (if strictEq x v then Some 0 else map_option Suc (indexOf xs v))"

section \<open>Feature extraction read by the worker\<close>

text \<open>The \<^verbatim>\<open>rms\<close> extractor of the embedded library: the square root of the mean of the
  squares of the signal, the signal being the frame the worker stored in
  \<^verbatim>\<open>meyda.signal\<close>.\<close>

definition rms :: "jsnum list \<Rightarrow> jsnum" where
  "rms signal =
     jsqrt (jdiv (fold (\<lambda>x t. jadd t (jmul x x)) signal (Num 0))
                 (Num (real (length signal))))"

section \<open>State of the worker\<close>

text \<open>A speaker id is the string \<^verbatim>\<open>'S' + n\<close> for a positive integer \<open>n\<close>; it is kept as
  the number under the constructor \<open>S\<close>. Such a string is never empty, so the only
  falsy value of \<^verbatim>\<open>currentSpeakerId\<close> is \<^verbatim>\<open>null\<close>, the \<open>None\<close> of the model.\<close>

datatype SpeakerId = S nat

record centroid =
  id_c :: SpeakerId
  vector :: "jsnum list"

record segment =
  speakerId :: SpeakerId
  startMs :: real
  endMs :: real

record config =
  expectedSpeakers :: int
  sampleRate :: int

text \<open>The module variables of the worker script. \<open>meyda\<close> is the library handle, unset
  until the first \<^verbatim>\<open>config\<close> message, and holds the sample rate it was given then.\<close>

record worker =
  meyda :: "int option"
  featureBuffer :: "jsnum list list"
  centroids :: "centroid list"
  currentSpeakerId :: "SpeakerId option"
  currentSegmentStartMs :: real
  lastSpeechTimestamp :: real
  silenceFrames :: nat
  noiseFloor :: real
  segmentQueue :: "segment list"
  cfg :: config

definition MAX_FEATURE_BUFFER_LENGTH :: nat where
  "MAX_FEATURE_BUFFER_LENGTH = 12"

definition SILENCE_THRESHOLD_FRAMES :: nat where
  "SILENCE_THRESHOLD_FRAMES = 10"

definition CHANGE_THRESHOLD :: real where
  "CHANGE_THRESHOLD = 0.4"

definition alpha :: real where
  "alpha = 0.02"

text \<open>The floor of the voice-activity threshold, the literal \<^verbatim>\<open>0.0045\<close> of
  \<^verbatim>\<open>processFrame\<close>.\<close>

definition ABS_MIN :: real where
  "ABS_MIN = 0.0045"

definition initial_worker :: worker where
  "initial_worker =
     \<lparr> meyda = None, featureBuffer = [], centroids = [], currentSpeakerId = None,
       currentSegmentStartMs = 0, lastSpeechTimestamp = 0, silenceFrames = 0,
       noiseFloor = 0.003, segmentQueue = [],
       cfg = \<lparr> expectedSpeakers = 2, sampleRate = 16000 \<rparr> \<rparr>"

text \<open>What the worker posts to the main thread, and what it receives.\<close>

datatype out_msg =
    Segments "segment list"
  | ActiveSpeaker SpeakerId
  | Ready
  | Pong
  | Error string

text \<open>A \<^verbatim>\<open>config\<close> payload field is \<open>None\<close> when it is absent or not a number
  (\<^verbatim>\<open>undefined\<close>, NaN); the \<^verbatim>\<open>t0ms\<close> of a \<^verbatim>\<open>stop\<close> is \<open>None\<close> when the payload has no
  number there. A frame that is \<^verbatim>\<open>undefined\<close> is the empty list, as an empty frame is.\<close>

datatype in_msg =
    Config "int option" "int option"
  | Audio "jsnum list" real
  | Stop "real option"
  | Ping
  | Other

section \<open>Functions of the worker\<close>

definition cosineDistance :: "jsnum list \<Rightarrow> jsnum list \<Rightarrow> jsnum" where
  "cosineDistance v1 v2 =
     (if length v1 \<noteq> length v2 then Num 1
      else
        let (dot, m1, m2) =
              fold (\<lambda>(a, b) (dot, m1, m2).
                      (jadd dot (jmul a b), jadd m1 (jmul a a), jadd m2 (jmul b b)))
                   (zip v1 v2) (Num 0, Num 0, Num 0);
            m1 = jsqrt m1;
            m2 = jsqrt m2
        in if strictEq m1 (Num 0) \<or> strictEq m2 (Num 0) then Num 1
           else jsub (Num 1) (jdiv dot (jmul m1 m2)))"

definition flushQueue :: "worker \<Rightarrow> worker \<times> out_msg list" where
  "flushQueue s =
     (if length (segmentQueue s) > 0
      then (s\<lparr>segmentQueue := []\<rparr>, [Segments (segmentQueue s)])
      else (s, []))"

definition endCurrentSegment :: "real \<Rightarrow> worker \<Rightarrow> worker \<times> out_msg list" where
  "endCurrentSegment timestamp s =
     (case currentSpeakerId s of
        None \<Rightarrow> (s, [])
      | Some sp \<Rightarrow>
          let endTime = (if lastSpeechTimestamp s > 0 then lastSpeechTimestamp s else timestamp);
              (s1, out) =
                (if endTime > currentSegmentStartMs s
                 then flushQueue
                        (s\<lparr>segmentQueue := segmentQueue s @
                             [\<lparr> speakerId = sp, startMs = currentSegmentStartMs s,
                                endMs = endTime \<rparr>]\<rparr>)
                 else (s, []))
          in (s1\<lparr>currentSpeakerId := None, lastSpeechTimestamp := 0\<rparr>, out))"

text \<open>A new feature vector enters the sliding window, the oldest one leaving a full
  window first (\<^verbatim>\<open>featureBuffer.shift()\<close>, then \<^verbatim>\<open>featureBuffer.push(mfcc)\<close>).\<close>

definition pushFeature :: "jsnum list \<Rightarrow> jsnum list list \<Rightarrow> jsnum list list" where
  "pushFeature mfcc fb =
     (if length fb \<ge> MAX_FEATURE_BUFFER_LENGTH then tl fb else fb) @ [mfcc]"

text \<open>The mean of the buffered vectors (\<^verbatim>\<open>currentMean\<close>), over the dimensions of the
  first one.\<close>

definition currentMean :: "jsnum list list \<Rightarrow> jsnum list" where
  "currentMean fb =
     (case fb of
        [] \<Rightarrow> []
      | v0 # _ \<Rightarrow>
          let dims = length v0;
              summed =
                fold (\<lambda>vec cm. fold (\<lambda>d cm. cm[d := jadd (cm ! d) (at_js vec d)]) [0..<dims] cm)
                     fb (replicate dims (Num 0))
          in map (\<lambda>x. jdiv x (Num (real (length fb)))) summed)"

text \<open>The update loop of the matched centroid:
  \<^verbatim>\<open>cvec[d] = (cvec[d] * (1 - alpha)) + (currentMean[d] * alpha)\<close> for \<open>d < dims\<close>.\<close>

definition emaUpdate :: "nat \<Rightarrow> jsnum list \<Rightarrow> jsnum list \<Rightarrow> jsnum list" where
  "emaUpdate dims cvec mean =
     fold (\<lambda>d cvec. put_js cvec d
                      (jadd (jmul (at_js cvec d) (Num (1 - alpha)))
                            (jmul (at_js mean d) (Num alpha))))
          [0..<dims] cvec"

datatype thrown = TypeError

text \<open>The clustering branch of \<^verbatim>\<open>processFrame\<close>: from the mean vector, the detected
  speaker id and the centroids after the step. When the least distance is NaN,
  \<^verbatim>\<open>indexOf\<close> answers \<open>-1\<close> and reading \<^verbatim>\<open>centroids[-1].id\<close> throws.\<close>

definition assignSpeaker ::
  "config \<Rightarrow> nat \<Rightarrow> jsnum list \<Rightarrow> centroid list \<Rightarrow> thrown + (SpeakerId \<times> centroid list)" where
  "assignSpeaker c dims mean cs =
     (if length cs = 0
      then Inr (S 1, cs @ [\<lparr> id_c = S 1, vector = mean \<rparr>])
      else
        let distances = map (\<lambda>c. cosineDistance mean (vector c)) cs;
            minDistance = Math_min distances;
            closestIdx = indexOf distances minDistance
        in if jgt minDistance CHANGE_THRESHOLD \<and> int (length cs) < expectedSpeakers c
           then Inr (S (length cs + 1),
                     cs @ [\<lparr> id_c = S (length cs + 1), vector = mean \<rparr>])
           else (case closestIdx of
                   None \<Rightarrow> Inl TypeError
                 | Some k \<Rightarrow>
                     Inr (id_c (cs ! k),
                          cs[k := (cs ! k)\<lparr>vector := emaUpdate dims (vector (cs ! k)) mean\<rparr>])))"

text \<open>\<^verbatim>\<open>processFrame\<close>. The \<^verbatim>\<open>mfcc\<close> feature is computed by the embedded library from
  its spectrum of the frame; it is the parameter \<open>mfccOf\<close>, \<open>None\<close> when the library
  gives no value. The result is the exception thrown, if any, the state reached and the
  messages posted.\<close>

definition processFrame ::
  "(jsnum list \<Rightarrow> jsnum list option) \<Rightarrow> jsnum list \<Rightarrow> real \<Rightarrow> worker \<Rightarrow>
     thrown option \<times> worker \<times> out_msg list" where
  "processFrame mfccOf frame t0ms s =
     (if length frame = 0 \<or> meyda s = None then (None, s, [])
      else
        case (rms frame, mfccOf frame) of
          (NaN, m) \<Rightarrow> (None, s, [])
        | (Num r, None) \<Rightarrow> (None, s, [])
        | (Num r, Some mfcc) \<Rightarrow>
            if r = 0 then (None, s, [])
            else
              let s1 = s\<lparr>noiseFloor := (noiseFloor s * 0.995) + (r * 0.005)\<rparr>;
                  vadThreshold = max (noiseFloor s1 * 2.5) ABS_MIN
              in if r < vadThreshold
                 then
                   let s2 = s1\<lparr>silenceFrames := silenceFrames s1 + 1\<rparr>
                   in if silenceFrames s2 > SILENCE_THRESHOLD_FRAMES
                      then (None, endCurrentSegment t0ms s2)
                      else (None, s2, [])
                 else
                   let s2 = s1\<lparr>silenceFrames := 0, lastSpeechTimestamp := t0ms\<rparr>
                   in if length mfcc = 0 then (None, s2, [])
                      else
                        let fb = pushFeature mfcc (featureBuffer s2);
                            s3 = s2\<lparr>featureBuffer := fb\<rparr>
                        in if length fb < MAX_FEATURE_BUFFER_LENGTH div 2 then (None, s3, [])
                           else
                             (case assignSpeaker (cfg s3) (length (hd fb)) (currentMean fb)
                                     (centroids s3) of
                                Inl e \<Rightarrow> (Some e, s3, [])
                              | Inr (detectedSpeakerId, cs) \<Rightarrow>
                                  let s4 = s3\<lparr>centroids := cs\<rparr>
                                  in if Some detectedSpeakerId \<noteq> currentSpeakerId s4
                                     then
                                       let (s5, out) = endCurrentSegment t0ms s4
                                       in (None,
                                           s5\<lparr>currentSpeakerId := Some detectedSpeakerId,
                                               currentSegmentStartMs := t0ms\<rparr>,
                                           out @ [ActiveSpeaker detectedSpeakerId])
                                     else (None, s4, [])))"

text \<open>\<^verbatim>\<open>value || dflt\<close> on a payload number: zero and a missing value give the default.\<close>

definition orDefault :: "int option \<Rightarrow> int \<Rightarrow> int" where
  "orDefault v dflt = (case v of None \<Rightarrow> dflt | Some n \<Rightarrow> if n = 0 then dflt else n)"

text \<open>\<^verbatim>\<open>self.onmessage\<close>: one message, the state after it and the messages posted. The
  handler catches what \<^verbatim>\<open>processFrame\<close> throws and posts it as an \<^verbatim>\<open>error\<close> message.\<close>

definition onmessage ::
  "(jsnum list \<Rightarrow> jsnum list option) \<Rightarrow> in_msg \<Rightarrow> worker \<Rightarrow> worker \<times> out_msg list" where
  "onmessage mfccOf m s =
     (case m of
        Config es sr \<Rightarrow>
          let s1 = s\<lparr>cfg := \<lparr> expectedSpeakers = orDefault es 2,
                               sampleRate = orDefault sr 16000 \<rparr>\<rparr>;
              s2 = (if meyda s1 = None then s1\<lparr>meyda := Some (sampleRate (cfg s1))\<rparr> else s1)
          in (s2, [Ready])
      | Audio frame t0ms \<Rightarrow>
          (case processFrame mfccOf frame t0ms s of
             (None, s1, out) \<Rightarrow> (s1, out)
           | (Some e, s1, out) \<Rightarrow> (s1, out @ [Error ''TypeError'']))
      | Stop t \<Rightarrow>
          let stopTs = (case t of Some t0ms \<Rightarrow> t0ms
                        | None \<Rightarrow> if lastSpeechTimestamp s \<noteq> 0 then lastSpeechTimestamp s else 0);
              (s1, out1) = endCurrentSegment stopTs s;
              (s2, out2) = flushQueue s1
          in (s2\<lparr>centroids := [], featureBuffer := [], currentSpeakerId := None,
                  lastSpeechTimestamp := 0, silenceFrames := 0\<rparr>,
              out1 @ out2)
      | Ping \<Rightarrow> (s, [Pong])
      | Other \<Rightarrow> (s, []))"

text \<open>A run of the worker over the messages it receives, in order.\<close>

fun run ::
  "(jsnum list \<Rightarrow> jsnum list option) \<Rightarrow> in_msg list \<Rightarrow> worker \<Rightarrow> worker \<times> out_msg list" where
  "run mfccOf [] s = (s, [])"
| "run mfccOf (m # ms) s =
     (let (s1, out1) = onmessage mfccOf m s;
          (s2, out2) = run mfccOf ms s1
      in (s2, out1 @ out2))"

text \<open>The finalized segments the main thread collects from the posted messages
  (\<^verbatim>\<open>segmentsRef.current = [...segmentsRef.current, ...payload]\<close>), and the speaker ids
  the posted messages carry.\<close>

fun finalized :: "out_msg list \<Rightarrow> segment list" where
  "finalized [] = []"
| "finalized (Segments segs # out) = segs @ finalized out"
| "finalized (m # out) = finalized out"

fun emittedIds :: "out_msg list \<Rightarrow> SpeakerId set" where
  "emittedIds [] = {}"
| "emittedIds (Segments segs # out) = speakerId ` set segs \<union> emittedIds out"
| "emittedIds (ActiveSpeaker sp # out) = insert sp (emittedIds out)"
| "emittedIds (m # out) = emittedIds out"

text \<open>The timestamps of the audio frames of a message list, in arrival order.\<close>

fun audioTimes :: "in_msg list \<Rightarrow> real list" where
  "audioTimes [] = []"
| "audioTimes (Audio frame t0ms # ms) = t0ms # audioTimes ms"
| "audioTimes (m # ms) = audioTimes ms"

fun isStop :: "in_msg \<Rightarrow> bool" where
  "isStop (Stop t) = True"
| "isStop m = False"

fun isConfig :: "in_msg \<Rightarrow> bool" where
  "isConfig (Config es sr) = True"
| "isConfig m = False"

text \<open>Segments as half-open intervals that do not overlap: each one ends no later than
  the next one starts.\<close>

fun nonOverlapping :: "segment list \<Rightarrow> bool" where
  "nonOverlapping [] = True"
| "nonOverlapping [x] = True"
| "nonOverlapping (x # y # segs) = (endMs x \<le> startMs y \<and> nonOverlapping (y # segs))"

section \<open>The same-thread variant of the hook\<close>

text \<open>The variant of \<^verbatim>\<open>useDiarization\<close> without a worker keeps the open segment in
  \<^verbatim>\<open>currentSegmentRef\<close> and the finalized ones in \<^verbatim>\<open>segments\<close>. Its
  \<^verbatim>\<open>endCurrentSegment\<close> filters by \<^verbatim>\<open>MIN_SEGMENT_DURATION_MS\<close>, which one copy of the
  hook declares as 300 and the other reads from a constants module; the function takes
  it as \<open>minDuration\<close>.\<close>

record hook =
  currentSegmentRef :: "segment option"
  segments :: "segment list"
  activeSpeaker :: "SpeakerId option"

definition MIN_SEGMENT_DURATION_MS :: real where
  "MIN_SEGMENT_DURATION_MS = 300"

definition endCurrentSegment_hook :: "real \<Rightarrow> real \<Rightarrow> hook \<Rightarrow> hook" where
  "endCurrentSegment_hook minDuration endTime h =
     (case currentSegmentRef h of
        None \<Rightarrow> h
      | Some seg \<Rightarrow>
          let segment = seg\<lparr>endMs := endTime\<rparr>;
              h1 = (if endMs segment - startMs segment \<ge> minDuration
                    then h\<lparr>segments := segments h @ [segment]\<rparr> else h)
          in h1\<lparr>currentSegmentRef := None, activeSpeaker := None\<rparr>)"

section \<open>The heartbeat of the supervising hook\<close>

text \<open>The main-thread side of the worker-isolated hook: the closure variable
  \<^verbatim>\<open>gotPong\<close> of the running \<^verbatim>\<open>start()\<close>, \<^verbatim>\<open>restartAttemptsRef\<close>, whether the heartbeat
  interval is registered, the number of workers created so far, what the caller sees
  (the \<^verbatim>\<open>activeSpeaker\<close> the hook returns and the calls of \<^verbatim>\<open>onNewSegments\<close>), the pings
  posted and the console.\<close>

datatype console_entry =
    WarnUnresponsive
  | LogRestartAttempt nat
  | ErrorRestartFailed
  | ErrorFromWorker string

record supervisor =
  gotPong :: bool
  restartAttempts :: nat
  heartbeat :: bool
  workersStarted :: nat
  segmentsRef :: "segment list"
  activeSpeakerState :: "SpeakerId option"
  onNewSegmentsCalls :: "segment list list"
  pingsPosted :: nat
  console :: "console_entry list"

definition MAX_RESTARTS :: nat where
  "MAX_RESTARTS = 3"

text \<open>\<^verbatim>\<open>stopDiarization\<close>: the interval is cleared, the worker terminated, the caller's
  view emptied.\<close>

definition stopDiarization :: "supervisor \<Rightarrow> supervisor" where
  "stopDiarization u =
     u\<lparr>heartbeat := False, activeSpeakerState := None, segmentsRef := [],
       onNewSegmentsCalls := onNewSegmentsCalls u @ [[]]\<rparr>"

text \<open>\<^verbatim>\<open>start()\<close> on its path without a failure of the audio worklet: everything is
  torn down, a new worker is created and configured, and a new heartbeat begins with
  \<^verbatim>\<open>gotPong = true\<close>. The restart counter is not touched.\<close>

definition start :: "supervisor \<Rightarrow> supervisor" where
  "start u =
     (let u1 = stopDiarization u
      in u1\<lparr>workersStarted := workersStarted u1 + 1, gotPong := True, heartbeat := True\<rparr>)"

text \<open>The callback of the heartbeat interval; it does not run once the interval is
  cleared.\<close>

definition heartbeatTick :: "supervisor \<Rightarrow> supervisor" where
  "heartbeatTick u =
     (if \<not> heartbeat u then u
      else if \<not> gotPong u
      then
        let u1 = u\<lparr>console := console u @ [WarnUnresponsive], heartbeat := False\<rparr>
        in if restartAttempts u1 < MAX_RESTARTS
           then
             let u2 = u1\<lparr>restartAttempts := restartAttempts u1 + 1\<rparr>;
                 u3 = u2\<lparr>console := console u2 @ [LogRestartAttempt (restartAttempts u2)]\<rparr>
             in start u3
           else u1\<lparr>console := console u1 @ [ErrorRestartFailed]\<rparr>
      else u\<lparr>gotPong := False, pingsPosted := pingsPosted u + 1\<rparr>)"

text \<open>\<^verbatim>\<open>worker.onmessage\<close> on the main thread.\<close>

definition workerMessage :: "out_msg \<Rightarrow> supervisor \<Rightarrow> supervisor" where
  "workerMessage m u =
     (case m of
        Pong \<Rightarrow> u\<lparr>gotPong := True, restartAttempts := 0\<rparr>
      | Segments payload \<Rightarrow>
          u\<lparr>segmentsRef := segmentsRef u @ payload,
            onNewSegmentsCalls := onNewSegmentsCalls u @ [segmentsRef u @ payload]\<rparr>
      | ActiveSpeaker sp \<Rightarrow> u\<lparr>activeSpeakerState := Some sp\<rparr>
      | Error e \<Rightarrow> u\<lparr>console := console u @ [ErrorFromWorker e]\<rparr>
      | Ready \<Rightarrow> u)"

datatype sup_event = Tick | FromWorker out_msg

fun supervise :: "sup_event list \<Rightarrow> supervisor \<Rightarrow> supervisor" where
  "supervise [] u = u"
| "supervise (Tick # es) u = supervise es (heartbeatTick u)"
| "supervise (FromWorker m # es) u = supervise es (workerMessage m u)"

text \<open>The hook when its effect first runs with a stream: the counter is set to zero and
  \<^verbatim>\<open>start()\<close> is called.\<close>

definition sessionStart :: supervisor where
  "sessionStart =
     start \<lparr> gotPong = True, restartAttempts = 0, heartbeat = False, workersStarted = 0,
             segmentsRef = [], activeSpeakerState = None, onNewSegmentsCalls = [],
             pingsPosted = 0, console = [] \<rparr>"

section \<open>Example inputs\<close>

text \<open>A feature extractor that answers the same two coefficients for every frame, a
  frame below the voice-activity floor and a loud one, and a worker in the middle of a
  segment of speaker \<open>S 1\<close>.\<close>

definition mfccExample :: "jsnum list \<Rightarrow> jsnum list option" where
  "mfccExample frame = Some [Num 1, Num 0]"

definition quietFrame :: "jsnum list" where
  "quietFrame = [Num 0.001]"

definition loudFrame :: "jsnum list" where
  "loudFrame = [Num 1]"

text \<open>A frame of digital silence: every sample is zero.\<close>

definition zeroFrame :: "jsnum list" where
  "zeroFrame = [Num 0, Num 0, Num 0]"

definition inSegment :: worker where
  "inSegment =
     initial_worker\<lparr>meyda := Some 16000, currentSpeakerId := Some (S 1),
       currentSegmentStartMs := 1000, lastSpeechTimestamp := 1299,
       centroids := [\<lparr> id_c = S 1, vector = [Num 1, Num 0] \<rparr>]\<rparr>"

definition hookInSegment :: hook where
  "hookInSegment =
     \<lparr> currentSegmentRef = Some \<lparr> speakerId = S 1, startMs = 1000, endMs = 1100 \<rparr>,
       segments = [], activeSpeaker = Some (S 1) \<rparr>"

section \<open>Predicates and the clustering step over real vectors\<close>

text \<open>The cosine distance of two real vectors, one minus their cosine similarity, with
  the answer 1 of the script where the lengths differ or a vector has magnitude zero;
  and centroids given by real vectors, as the worker holds them.\<close>

definition cosineDistanceReal :: "real list \<Rightarrow> real list \<Rightarrow> real" where
  "cosineDistanceReal a b =
     (if length a \<noteq> length b then 1
      else
        let dot = sum_list (map (\<lambda>(x, y). x * y) (zip a b));
            m1 = sqrt (sum_list (map (\<lambda>x. x * x) a));
            m2 = sqrt (sum_list (map (\<lambda>y. y * y) b))
        in if m1 = 0 \<or> m2 = 0 then 1 else 1 - dot / (m1 * m2))"

definition embed :: "(SpeakerId \<times> real list) list \<Rightarrow> centroid list" where
  "embed rcs = map (\<lambda>(i, v). \<lparr> id_c = i, vector = map Num v \<rparr>) rcs"

text \<open>The ids \<open>S 1\<close> to \<open>S e\<close>; centroids whose ids are \<open>S 1\<close>, \<open>S 2\<close>, ... in the order of
  the list; and what a worker configured for \<open>e\<close> speakers keeps true.\<close>

definition idsUpTo :: "int \<Rightarrow> SpeakerId set" where
  "idsUpTo e = {S k | k. 1 \<le> k \<and> int k \<le> e}"

definition sequentialIds :: "centroid list \<Rightarrow> bool" where
  "sequentialIds cs = (map id_c cs = map (\<lambda>i. S (i + 1)) [0..<length cs])"

definition speakerInvariant :: "int \<Rightarrow> worker \<Rightarrow> bool" where
  "speakerInvariant e s =
     (expectedSpeakers (cfg s) = e \<and> sequentialIds (centroids s) \<and>
      int (length (centroids s)) \<le> e \<and>
      (\<forall>sp. currentSpeakerId s = Some sp \<longrightarrow> sp \<in> idsUpTo e) \<and>
      speakerId ` set (segmentQueue s) \<subseteq> idsUpTo e)"

text \<open>A session has its \<^verbatim>\<open>stop\<close> message, if any, last. \<open>chain lo segs hi\<close> says that
  the segments follow one another between \<open>lo\<close> and \<open>hi\<close>: each starts no earlier than
  the one before ends, and ends after it starts. \<open>segInvariant tp s\<close> relates a worker
  to the latest frame timestamp \<open>tp\<close>, and \<open>floorOf tp s\<close> is the earliest start a
  segment finalized from \<open>s\<close> on can have.\<close>

definition stopOnlyLast :: "in_msg list \<Rightarrow> bool" where
  "stopOnlyLast ms = (\<forall>m \<in> set (butlast ms). \<not> isStop m)"

fun chain :: "real \<Rightarrow> segment list \<Rightarrow> real \<Rightarrow> bool" where
  "chain lo [] hi = (lo \<le> hi)"
| "chain lo (x # xs) hi = (lo \<le> startMs x \<and> startMs x < endMs x \<and> chain (endMs x) xs hi)"

definition segInvariant :: "real \<Rightarrow> worker \<Rightarrow> bool" where
  "segInvariant tp s =
     (segmentQueue s = [] \<and>
      (lastSpeechTimestamp s > 0 \<longrightarrow> lastSpeechTimestamp s \<le> tp) \<and>
      (currentSpeakerId s \<noteq> None \<longrightarrow> currentSegmentStartMs s \<le> tp))"

definition floorOf :: "real \<Rightarrow> worker \<Rightarrow> real" where
  "floorOf tp s = (if currentSpeakerId s = None then tp else currentSegmentStartMs s)"

text \<open>A session of seven loud frames about 85 ms apart, the cadence of chunks of 4096
  samples at 48 kHz, then stopped.\<close>

definition exampleSession :: "in_msg list" where
  "exampleSession =
     Config (Some 2) (Some 48000) #
     map (Audio loudFrame) [1000, 1085, 1170, 1255, 1340, 1425, 1510] @ [Stop None]"

section \<open>Closing a segment\<close>

text \<open>
  C1, as the code has it. In the same-thread variant a closed segment is kept if and only
  if its end minus its start is at least \<^verbatim>\<open>MIN_SEGMENT_DURATION_MS\<close>. The worker has no
  minimum duration: it ends the segment at the last speech timestamp (at the given
  timestamp when there is none) and posts it if and only if that end is later than the
  start of the segment.
\<close>

theorem segment_emission:
  "(currentSegmentRef h = Some seg \<longrightarrow>
      segments (endCurrentSegment_hook minDuration endTime h) =
        (if endTime - startMs seg \<ge> minDuration
         then segments h @ [seg\<lparr>endMs := endTime\<rparr>] else segments h)) \<and>
   (currentSpeakerId s = Some sp \<longrightarrow>
      snd (endCurrentSegment timestamp s) =
        (let endTime = (if lastSpeechTimestamp s > 0 then lastSpeechTimestamp s else timestamp)
         in if endTime > currentSegmentStartMs s
            then [Segments (segmentQueue s @
                    [\<lparr> speakerId = sp, startMs = currentSegmentStartMs s, endMs = endTime \<rparr>])]
            else []))"
  by (simp add: endCurrentSegment_hook_def endCurrentSegment_def flushQueue_def Let_def)

text \<open>The theorem at a segment of the same-thread variant that lasts exactly the minimum
  and at one that lasts one millisecond less, and at a segment of the worker that lasts
  299 ms.\<close>

theorem segment_emission_witness:
  "currentSegmentRef hookInSegment = Some \<lparr> speakerId = S 1, startMs = 1000, endMs = 1100 \<rparr> \<and>
   segments (endCurrentSegment_hook MIN_SEGMENT_DURATION_MS 1300 hookInSegment) =
     [\<lparr> speakerId = S 1, startMs = 1000, endMs = 1300 \<rparr>] \<and>
   segments (endCurrentSegment_hook MIN_SEGMENT_DURATION_MS 1299 hookInSegment) = [] \<and>
   currentSpeakerId inSegment = Some (S 1) \<and>
   snd (endCurrentSegment 5000 inSegment) =
     [Segments [\<lparr> speakerId = S 1, startMs = 1000, endMs = 1299 \<rparr>]]"
  using segment_emission [of hookInSegment "\<lparr> speakerId = S 1, startMs = 1000, endMs = 1100 \<rparr>"
      MIN_SEGMENT_DURATION_MS 1300 inSegment "S 1" 5000]
    segment_emission [of hookInSegment "\<lparr> speakerId = S 1, startMs = 1000, endMs = 1100 \<rparr>"
      MIN_SEGMENT_DURATION_MS 1299 inSegment "S 1" 5000]
  by (simp add: hookInSegment_def inSegment_def initial_worker_def MIN_SEGMENT_DURATION_MS_def)

text \<open>C1 as stated fails on the worker: a segment of 299 ms, one millisecond short of
  the minimum of 300 ms, is posted as finalized.\<close>

theorem worker_emits_short_segment:
  "snd (endCurrentSegment 1299 inSegment) =
     [Segments [\<lparr> speakerId = S 1, startMs = 1000, endMs = 1299 \<rparr>]] \<and>
   \<not> (1299 - 1000 \<ge> MIN_SEGMENT_DURATION_MS)"
  by (simp add: endCurrentSegment_def flushQueue_def Let_def inSegment_def initial_worker_def
        MIN_SEGMENT_DURATION_MS_def)

section \<open>The config message\<close>

text \<open>
  C3, as the code has it. No configuration is rejected: whatever the payload, the worker
  stores a configuration, makes the library ready and answers \<^verbatim>\<open>ready\<close> and nothing
  else; an \<^verbatim>\<open>expectedSpeakers\<close> of zero, or none, is replaced by the default 2.
\<close>

theorem config_always_ready:
  "snd (onmessage mfccOf (Config es sr) s) = [Ready] \<and>
   meyda (fst (onmessage mfccOf (Config es sr) s)) \<noteq> None \<and>
   expectedSpeakers (cfg (fst (onmessage mfccOf (Config (Some 0) sr) s))) = 2 \<and>
   expectedSpeakers (cfg (fst (onmessage mfccOf (Config None sr) s))) = 2"
  by (simp add: onmessage_def orDefault_def Let_def)

text \<open>C3 as stated fails: a fresh worker answers \<^verbatim>\<open>ready\<close>, with no error, to a
  configuration with \<^verbatim>\<open>expectedSpeakers\<close> 0 and to one with \<open>-1\<close>.\<close>

theorem config_zero_not_rejected:
  "onmessage mfccExample (Config (Some 0) (Some 48000)) initial_worker =
     (initial_worker\<lparr>meyda := Some 48000,
        cfg := \<lparr> expectedSpeakers = 2, sampleRate = 48000 \<rparr>\<rparr>, [Ready]) \<and>
   snd (onmessage mfccExample (Config (Some (- 1)) (Some 48000)) initial_worker) = [Ready]"
  by (simp add: onmessage_def orDefault_def Let_def initial_worker_def)

section \<open>Frames\<close>

lemma fold_sq_NaN: "fold (\<lambda>x t. jadd t (jmul x x)) xs NaN = NaN"
  by (induction xs) simp_all

lemma fold_sq_has_NaN: "NaN \<in> set xs \<Longrightarrow> fold (\<lambda>x t. jadd t (jmul x x)) xs acc = NaN"
proof (induction xs arbitrary: acc)
  case Nil
  then show ?case by simp
next
  case (Cons x xs)
  show ?case
  proof (cases "x = NaN")
    case True
    then show ?thesis by (simp add: fold_sq_NaN)
  next
    case False
    with Cons show ?thesis by simp
  qed
qed

lemma rms_NaN: "NaN \<in> set frame \<Longrightarrow> rms frame = NaN"
  by (simp add: rms_def fold_sq_has_NaN)

lemma rms_single: "rms [Num x] = Num \<bar>x\<bar>"
  by (simp add: rms_def)

lemma endCurrentSegment_noiseFloor: "noiseFloor (fst (endCurrentSegment t s)) = noiseFloor s"
  by (simp add: endCurrentSegment_def flushQueue_def Let_def split: option.splits)

lemma endCurrentSegment_silenceFrames:
  "silenceFrames (fst (endCurrentSegment t s)) = silenceFrames s"
  by (simp add: endCurrentSegment_def flushQueue_def Let_def split: option.splits)

lemma processFrame_silent:
  assumes "frame \<noteq> []" "meyda s = Some sr" "rms frame = Num e" "e \<noteq> 0"
    "mfccOf frame = Some m"
    "e < max ((noiseFloor s * 0.995 + e * 0.005) * 2.5) ABS_MIN"
  shows "processFrame mfccOf frame t s =
    (let s2 = s\<lparr>noiseFloor := noiseFloor s * 0.995 + e * 0.005,
                 silenceFrames := silenceFrames s + 1\<rparr>
     in if silenceFrames s + 1 > SILENCE_THRESHOLD_FRAMES
        then (None, endCurrentSegment t s2) else (None, s2, []))"
  using assms by (simp add: processFrame_def Let_def)

lemma processFrame_speech_fields:
  assumes "frame \<noteq> []" "meyda s = Some sr" "rms frame = Num e" "e \<noteq> 0"
    "mfccOf frame = Some m"
    "\<not> e < max ((noiseFloor s * 0.995 + e * 0.005) * 2.5) ABS_MIN"
  shows "silenceFrames (fst (snd (processFrame mfccOf frame t s))) = 0 \<and>
         noiseFloor (fst (snd (processFrame mfccOf frame t s))) =
           noiseFloor s * 0.995 + e * 0.005"
  using assms
  by (simp add: processFrame_def Let_def split_beta endCurrentSegment_noiseFloor
        endCurrentSegment_silenceFrames split: sum.splits)

text \<open>
  C4. A frame that is empty or holds a NaN sample is dropped: \<^verbatim>\<open>processFrame\<close> throws
  nothing, changes no variable of the worker and posts nothing, so the handler posts no
  error, and the messages that follow are processed as if the frame had not arrived.
\<close>

theorem malformed_frame_dropped:
  "frame = [] \<or> NaN \<in> set frame \<Longrightarrow>
     processFrame mfccOf frame t0ms s = (None, s, []) \<and>
     onmessage mfccOf (Audio frame t0ms) s = (s, []) \<and>
     run mfccOf (Audio frame t0ms # ms) s = run mfccOf ms s"
  by (auto simp: processFrame_def onmessage_def rms_NaN)

theorem malformed_frame_dropped_witness:
  "([Num 1, NaN] = [] \<or> NaN \<in> set [Num 1, NaN]) \<and>
   processFrame mfccExample [Num 1, NaN] 1400 inSegment = (None, inSegment, []) \<and>
   onmessage mfccExample (Audio [Num 1, NaN] 1400) inSegment = (inSegment, []) \<and>
   run mfccExample [Audio [Num 1, NaN] 1400, Ping] inSegment = (inSegment, [Pong])"
proof -
  have h: "[Num 1, NaN] = [] \<or> NaN \<in> set [Num 1, NaN]" by simp
  have "run mfccExample [Ping] inSegment = (inSegment, [Pong])"
    by (simp add: onmessage_def)
  with malformed_frame_dropped [OF h, of mfccExample 1400 inSegment "[Ping]"] h
  show ?thesis by simp
qed

text \<open>
  What the voice-activity detector does with a frame that reaches it (the frame is not
  empty, the library is configured, its RMS is a number other than zero and it has an
  \<^verbatim>\<open>mfcc\<close> value): the
  noise floor becomes \<open>noiseFloor * 0.995 + energy * 0.005\<close>, the threshold is the larger
  of 2.5 times the new noise floor and the positive constant \<open>ABS_MIN\<close>, and the frame
  counts as speech (the silence counter is reset to zero, where a silent frame adds one
  to it) if and only if its energy is at least the threshold.
\<close>

lemma vad_step:
  assumes "frame \<noteq> []" "meyda s \<noteq> None" "rms frame = Num energy" "energy \<noteq> 0"
    "mfccOf frame = Some mfcc"
  shows "noiseFloor (fst (snd (processFrame mfccOf frame t0ms s))) =
           noiseFloor s * 0.995 + energy * 0.005 \<and>
    0 < ABS_MIN \<and>
    silenceFrames (fst (snd (processFrame mfccOf frame t0ms s))) =
      (if energy \<ge> max ((noiseFloor s * 0.995 + energy * 0.005) * 2.5) ABS_MIN
       then 0 else silenceFrames s + 1)"
proof -
  from assms(2) obtain sr where sr: "meyda s = Some sr" by auto
  have pos: "0 < ABS_MIN" by (simp add: ABS_MIN_def)
  show ?thesis
  proof (cases "energy < max ((noiseFloor s * 0.995 + energy * 0.005) * 2.5) ABS_MIN")
    case True
    then have ge: "\<not> energy \<ge> max ((noiseFloor s * 0.995 + energy * 0.005) * 2.5) ABS_MIN"
      by (simp only: not_le)
    have "processFrame mfccOf frame t0ms s =
      (let s2 = s\<lparr>noiseFloor := noiseFloor s * 0.995 + energy * 0.005,
                   silenceFrames := silenceFrames s + 1\<rparr>
       in if silenceFrames s + 1 > SILENCE_THRESHOLD_FRAMES
          then (None, endCurrentSegment t0ms s2) else (None, s2, []))"
      by (rule processFrame_silent [where sr = sr and m = mfcc]) (use assms sr True in blast)+
    then have "noiseFloor (fst (snd (processFrame mfccOf frame t0ms s))) =
                 noiseFloor s * 0.995 + energy * 0.005"
      and "silenceFrames (fst (snd (processFrame mfccOf frame t0ms s))) = silenceFrames s + 1"
      by (simp_all add: Let_def endCurrentSegment_noiseFloor endCurrentSegment_silenceFrames)
    with pos ge show ?thesis by (simp only: if_False simp_thms)
  next
    case False
    then have ge: "energy \<ge> max ((noiseFloor s * 0.995 + energy * 0.005) * 2.5) ABS_MIN"
      by (simp only: not_less)
    have "silenceFrames (fst (snd (processFrame mfccOf frame t0ms s))) = 0 \<and>
         noiseFloor (fst (snd (processFrame mfccOf frame t0ms s))) =
           noiseFloor s * 0.995 + energy * 0.005"
      by (rule processFrame_speech_fields [where sr = sr and m = mfcc])
         (use assms sr False in blast)+
    with pos ge show ?thesis by (simp only: if_True simp_thms)
  qed
qed

text \<open>The lemma at a loud frame, which is speech, and at a quiet one, which is not.\<close>

lemma vad_step_example:
  "loudFrame \<noteq> [] \<and> quietFrame \<noteq> [] \<and> meyda inSegment \<noteq> None \<and>
   rms loudFrame = Num 1 \<and> rms quietFrame = Num 0.001 \<and>
   mfccExample loudFrame = Some [Num 1, Num 0] \<and>
   noiseFloor (fst (snd (processFrame mfccExample loudFrame 1400 inSegment))) = 0.007985 \<and>
   silenceFrames (fst (snd (processFrame mfccExample loudFrame 1400 inSegment))) = 0 \<and>
   noiseFloor (fst (snd (processFrame mfccExample quietFrame 1400 inSegment))) = 0.00299 \<and>
   silenceFrames (fst (snd (processFrame mfccExample quietFrame 1400 inSegment))) = 1"
proof -
  have a: "loudFrame \<noteq> []" "quietFrame \<noteq> []" by (simp_all add: loudFrame_def quietFrame_def)
  have b: "meyda inSegment \<noteq> None" by (simp add: inSegment_def)
  have c: "rms loudFrame = Num 1" "rms quietFrame = Num 0.001"
    by (simp_all add: loudFrame_def quietFrame_def rms_single)
  have d: "mfccExample loudFrame = Some [Num 1, Num 0]"
    "mfccExample quietFrame = Some [Num 1, Num 0]"
    by (simp_all add: mfccExample_def)
  have e: "noiseFloor inSegment = 0.003" "silenceFrames inSegment = 0"
    by (simp_all add: inSegment_def initial_worker_def)
  from vad_step [where frame = loudFrame and s = inSegment and energy = 1
      and mfccOf = mfccExample and mfcc = "[Num 1, Num 0]" and ?t0ms = 1400]
    vad_step [where frame = quietFrame and s = inSegment and energy = "0.001"
      and mfccOf = mfccExample and mfcc = "[Num 1, Num 0]" and ?t0ms = 1400]
    a b c d e
  show ?thesis by (simp add: ABS_MIN_def)
qed

text \<open>A frame whose RMS is exactly zero does not reach the detector: the guard
  \<^verbatim>\<open>!features.rms\<close>, which tests that the feature is there, is also true of the number
  zero, and \<^verbatim>\<open>processFrame\<close> returns before the noise floor is touched. Any number of such
  frames leaves the worker as it was, an open segment included.\<close>

lemma rms_zero_frame_dropped:
  "rms frame = Num 0 \<Longrightarrow> processFrame mfccOf frame t0ms s = (None, s, [])"
  by (simp add: processFrame_def split: option.splits)

lemma rms_zero_frames_ignored:
  "rms frame = Num 0 \<Longrightarrow> run mfccOf (map (Audio frame) ts) s = (s, [])"
  by (induction ts) (simp_all add: onmessage_def rms_zero_frame_dropped)

lemma rms_zeroFrame: "rms zeroFrame = Num 0"
  by (simp add: rms_def zeroFrame_def)

text \<open>
  C6 on the code. A configured worker with noise floor 0.003 and silence counter zero, in
  an open segment, receives a frame of three zero samples. Its energy, the RMS, is 0. By
  the claim the noise floor becomes \<open>0.003 * 0.995 + 0 * 0.005 = 0.002985\<close>, the threshold
  is \<open>max (0.002985 * 2.5) ABS_MIN = 0.0074625\<close>, and the frame, its energy below the
  threshold, is not speech. The code does none of it: the frame is dropped with the noise
  floor still 0.003 and the silence counter still zero, and eleven such frames in a row,
  which would close the segment were they counted as silence, post nothing and leave the
  segment open.
\<close>

theorem zero_energy_frame_skips_vad:
  "zeroFrame \<noteq> [] \<and> meyda inSegment = Some 16000 \<and> rms zeroFrame = Num 0 \<and>
   mfccExample zeroFrame = Some [Num 1, Num 0] \<and>
   noiseFloor inSegment = 0.003 \<and> silenceFrames inSegment = 0 \<and>
   noiseFloor inSegment * 0.995 + 0 * 0.005 = 0.002985 \<and>
   max (0.002985 * 2.5) ABS_MIN = 0.0074625 \<and> (0 :: real) < 0.0074625 \<and>
   processFrame mfccExample zeroFrame 1400 inSegment = (None, inSegment, []) \<and>
   run mfccExample
     (map (Audio zeroFrame) [1400, 1500, 1600, 1700, 1800, 1900, 2000, 2100, 2200, 2300, 2400])
     inSegment = (inSegment, []) \<and>
   currentSpeakerId inSegment = Some (S 1)"
proof -
  have a: "zeroFrame \<noteq> []" "mfccExample zeroFrame = Some [Num 1, Num 0]"
    by (simp_all add: zeroFrame_def mfccExample_def)
  have b: "meyda inSegment = Some 16000" "noiseFloor inSegment = 0.003"
    "silenceFrames inSegment = 0" "currentSpeakerId inSegment = Some (S 1)"
    by (simp_all add: inSegment_def initial_worker_def)
  have c: "noiseFloor inSegment * 0.995 + 0 * 0.005 = 0.002985"
    "max (0.002985 * 2.5) ABS_MIN = (0.0074625 :: real)" "(0 :: real) < 0.0074625"
    by (simp_all add: b ABS_MIN_def)
  have d: "processFrame mfccExample zeroFrame 1400 inSegment = (None, inSegment, [])"
    by (rule rms_zero_frame_dropped [OF rms_zeroFrame])
  have e: "run mfccExample
     (map (Audio zeroFrame) [1400, 1500, 1600, 1700, 1800, 1900, 2000, 2100, 2200, 2300, 2400])
     inSegment = (inSegment, [])"
    by (rule rms_zero_frames_ignored [OF rms_zeroFrame])
  from a b c d e rms_zeroFrame show ?thesis by (simp only: simp_thms)
qed

section \<open>The branches of a frame\<close>

lemma processFrame_speech:
  assumes "frame \<noteq> []" "meyda s = Some sr" "rms frame = Num e" "e \<noteq> 0"
    "mfccOf frame = Some m"
    "\<not> e < max ((noiseFloor s * 0.995 + e * 0.005) * 2.5) ABS_MIN"
  shows "processFrame mfccOf frame t s =
    (let s2 = s\<lparr>noiseFloor := noiseFloor s * 0.995 + e * 0.005,
                 silenceFrames := 0, lastSpeechTimestamp := t\<rparr>
     in if length m = 0 then (None, s2, [])
        else
          let fb = pushFeature m (featureBuffer s);
              s3 = s2\<lparr>featureBuffer := fb\<rparr>
          in if length fb < MAX_FEATURE_BUFFER_LENGTH div 2 then (None, s3, [])
             else
               (case assignSpeaker (cfg s) (length (hd fb)) (currentMean fb) (centroids s) of
                  Inl e \<Rightarrow> (Some e, s3, [])
                | Inr (detectedSpeakerId, cs) \<Rightarrow>
                    let s4 = s3\<lparr>centroids := cs\<rparr>
                    in if Some detectedSpeakerId \<noteq> currentSpeakerId s
                       then (None,
                             (fst (endCurrentSegment t s4))
                               \<lparr>currentSpeakerId := Some detectedSpeakerId,
                                 currentSegmentStartMs := t\<rparr>,
                             snd (endCurrentSegment t s4) @ [ActiveSpeaker detectedSpeakerId])
                       else (None, s4, [])))"
  using assms by (simp add: processFrame_def Let_def split_beta split: sum.splits)

lemma processFrame_cases:
  obtains
    (dropped) "processFrame f frame t s = (None, s, [])"
  | (silent) nf where
      "processFrame f frame t s =
         (None, s\<lparr>noiseFloor := nf, silenceFrames := silenceFrames s + 1\<rparr>, [])"
  | (closed) nf where
      "processFrame f frame t s =
         (None, endCurrentSegment t (s\<lparr>noiseFloor := nf, silenceFrames := silenceFrames s + 1\<rparr>))"
  | (speech) nf fb e where
      "processFrame f frame t s =
         (e, s\<lparr>noiseFloor := nf, silenceFrames := 0, lastSpeechTimestamp := t,
               featureBuffer := fb\<rparr>, [])"
  | (same) nf fb dims mean sid cs where
      "assignSpeaker (cfg s) dims mean (centroids s) = Inr (sid, cs)"
      "Some sid = currentSpeakerId s"
      "processFrame f frame t s =
         (None, s\<lparr>noiseFloor := nf, silenceFrames := 0, lastSpeechTimestamp := t,
               featureBuffer := fb, centroids := cs\<rparr>, [])"
  | (changed) nf fb dims mean sid cs where
      "assignSpeaker (cfg s) dims mean (centroids s) = Inr (sid, cs)"
      "Some sid \<noteq> currentSpeakerId s"
      "processFrame f frame t s =
         (None,
          (fst (endCurrentSegment t
                  (s\<lparr>noiseFloor := nf, silenceFrames := 0, lastSpeechTimestamp := t,
                      featureBuffer := fb, centroids := cs\<rparr>)))
            \<lparr>currentSpeakerId := Some sid, currentSegmentStartMs := t\<rparr>,
          snd (endCurrentSegment t
                  (s\<lparr>noiseFloor := nf, silenceFrames := 0, lastSpeechTimestamp := t,
                      featureBuffer := fb, centroids := cs\<rparr>)) @ [ActiveSpeaker sid])"
proof (cases "frame = [] \<or> meyda s = None")
  case True
  then have "processFrame f frame t s = (None, s, [])" by (auto simp: processFrame_def)
  then show thesis by (rule dropped)
next
  case False
  then obtain sr where fr: "frame \<noteq> []" and sr: "meyda s = Some sr" by auto
  show thesis
  proof (cases "rms frame")
    case NaN
    with fr sr have "processFrame f frame t s = (None, s, [])" by (simp add: processFrame_def)
    then show thesis by (rule dropped)
  next
    case (Num e)
    show thesis
    proof (cases "f frame")
      case None
      with fr sr Num have "processFrame f frame t s = (None, s, [])"
        by (simp add: processFrame_def)
      then show thesis by (rule dropped)
    next
      case (Some m)
      show thesis
      proof (cases "e = 0")
        case True
        with fr sr Num Some have "processFrame f frame t s = (None, s, [])"
          by (simp add: processFrame_def)
        then show thesis by (rule dropped)
      next
        case nz: False
        show thesis
        proof (cases "e < max ((noiseFloor s * 0.995 + e * 0.005) * 2.5) ABS_MIN")
          case True
          note sil = processFrame_silent [where mfccOf = f and frame = frame, OF fr sr Num nz Some True, of t]
          show thesis
          proof (cases "silenceFrames s + 1 > SILENCE_THRESHOLD_FRAMES")
            case True
            with sil show thesis by (intro closed) (simp add: Let_def)
          next
            case False
            with sil show thesis by (intro silent) (simp add: Let_def)
          qed
        next
          case False
          note sp = processFrame_speech [where mfccOf = f and frame = frame, OF fr sr Num nz Some False, of t]
          define fb where "fb = pushFeature m (featureBuffer s)"
          show thesis
          proof (cases "length m = 0")
            case True
            with sp have "processFrame f frame t s =
              (None, s\<lparr>noiseFloor := noiseFloor s * 0.995 + e * 0.005, silenceFrames := 0,
                 lastSpeechTimestamp := t, featureBuffer := featureBuffer s\<rparr>, [])"
              by (simp add: Let_def)
            then show thesis by (rule speech)
          next
            case mne: False
            show thesis
            proof (cases "length fb < MAX_FEATURE_BUFFER_LENGTH div 2")
              case True
              with sp mne have "processFrame f frame t s =
                (None, s\<lparr>noiseFloor := noiseFloor s * 0.995 + e * 0.005, silenceFrames := 0,
                   lastSpeechTimestamp := t, featureBuffer := fb\<rparr>, [])"
                by (simp add: Let_def fb_def)
              then show thesis by (rule speech)
            next
              case full: False
              show thesis
              proof (cases "assignSpeaker (cfg s) (length (hd fb)) (currentMean fb) (centroids s)")
                case (Inl ex)
                with sp mne full have "processFrame f frame t s =
                  (Some ex, s\<lparr>noiseFloor := noiseFloor s * 0.995 + e * 0.005,
                     silenceFrames := 0, lastSpeechTimestamp := t, featureBuffer := fb\<rparr>, [])"
                  by (simp add: Let_def fb_def)
                then show thesis by (rule speech)
              next
                case (Inr r)
                obtain sid cs where r: "r = (sid, cs)" by (cases r)
                note a = Inr [unfolded r]
                show thesis
                proof (cases "Some sid = currentSpeakerId s")
                  case True
                  with sp mne full a have "processFrame f frame t s =
                    (None, s\<lparr>noiseFloor := noiseFloor s * 0.995 + e * 0.005,
                       silenceFrames := 0, lastSpeechTimestamp := t, featureBuffer := fb,
                       centroids := cs\<rparr>, [])"
                    by (simp add: Let_def fb_def)
                  with a True show thesis by (rule same)
                next
                  case False
                  with sp mne full a have "processFrame f frame t s =
                    (None,
                     (fst (endCurrentSegment t
                        (s\<lparr>noiseFloor := noiseFloor s * 0.995 + e * 0.005,
                           silenceFrames := 0, lastSpeechTimestamp := t, featureBuffer := fb,
                           centroids := cs\<rparr>)))
                       \<lparr>currentSpeakerId := Some sid, currentSegmentStartMs := t\<rparr>,
                     snd (endCurrentSegment t
                        (s\<lparr>noiseFloor := noiseFloor s * 0.995 + e * 0.005,
                           silenceFrames := 0, lastSpeechTimestamp := t, featureBuffer := fb,
                           centroids := cs\<rparr>)) @ [ActiveSpeaker sid])"
                    by (simp add: Let_def fb_def)
                  with a False show thesis by (rule changed)
                qed
              qed
            qed
          qed
        qed
      qed
    qed
  qed
qed

section \<open>Silence before a segment closes\<close>

lemma endCurrentSegment_closes: "currentSpeakerId (fst (endCurrentSegment t s)) = None"
  by (simp add: endCurrentSegment_def flushQueue_def Let_def split_beta split: option.splits)

lemma quiet_is_silent:
  "(0.001::real) < max ((nf * 0.995 + 0.001 * 0.005) * 2.5) ABS_MIN"
  by (simp add: ABS_MIN_def less_max_iff_disj)

lemma quietFrame_step:
  assumes "meyda s = Some sr"
  shows "processFrame mfccExample quietFrame t s =
    (let s2 = s\<lparr>noiseFloor := noiseFloor s * 0.995 + 0.001 * 0.005,
                 silenceFrames := silenceFrames s + 1\<rparr>
     in if silenceFrames s + 1 > SILENCE_THRESHOLD_FRAMES
        then (None, endCurrentSegment t s2) else (None, s2, []))"
proof (rule processFrame_silent [where sr = sr and m = "[Num 1, Num 0]"])
  show "quietFrame \<noteq> []" by (simp add: quietFrame_def)
  show "meyda s = Some sr" by (rule assms)
  show "rms quietFrame = Num 0.001" by (simp add: quietFrame_def rms_single)
  show "(0.001::real) \<noteq> 0" by simp
  show "mfccExample quietFrame = Some [Num 1, Num 0]" by (simp add: mfccExample_def)
  show "(0.001::real) < max ((noiseFloor s * 0.995 + 0.001 * 0.005) * 2.5) ABS_MIN"
    by (rule quiet_is_silent)
qed

lemma quiet_frames_below_threshold:
  "meyda s = Some sr \<Longrightarrow> silenceFrames s + length ts \<le> SILENCE_THRESHOLD_FRAMES \<Longrightarrow>
     run mfccExample (map (Audio quietFrame) ts) s =
       (s\<lparr>noiseFloor := fold (\<lambda>t nf. nf * 0.995 + 0.001 * 0.005) ts (noiseFloor s),
           silenceFrames := silenceFrames s + length ts\<rparr>, [])"
proof (induction ts arbitrary: s)
  case Nil
  then show ?case by simp
next
  case (Cons t ts)
  let ?s2 = "s\<lparr>noiseFloor := noiseFloor s * 0.995 + 0.001 * 0.005,
                 silenceFrames := silenceFrames s + 1\<rparr>"
  from Cons.prems have small: "\<not> silenceFrames s + 1 > SILENCE_THRESHOLD_FRAMES" by simp
  have step: "onmessage mfccExample (Audio quietFrame t) s = (?s2, [])"
    using quietFrame_step [OF Cons.prems(1), of t] small by (simp add: onmessage_def Let_def)
  have "run mfccExample (map (Audio quietFrame) ts) ?s2 =
       (?s2\<lparr>noiseFloor := fold (\<lambda>t nf. nf * 0.995 + 0.001 * 0.005) ts (noiseFloor ?s2),
           silenceFrames := silenceFrames ?s2 + length ts\<rparr>, [])"
    using Cons.prems by (intro Cons.IH) simp_all
  with step show ?case by simp
qed

lemma run_append:
  "run f (xs @ ys) s = (let (s1, o1) = run f xs s; (s2, o2) = run f ys s1 in (s2, o1 @ o2))"
  by (induction xs arbitrary: s) (simp_all add: split_beta Let_def)

text \<open>A frame classified as silence adds one to the counter, and closes the open segment
  when the counter had already reached \<^verbatim>\<open>SILENCE_THRESHOLD_FRAMES\<close> before it.\<close>

lemma silent_frame_closing:
  assumes "frame \<noteq> []" "meyda s = Some sr" "rms frame = Num e" "e \<noteq> 0"
    "mfccOf frame = Some m"
    "e < max ((noiseFloor s * 0.995 + e * 0.005) * 2.5) ABS_MIN"
  shows "silenceFrames (fst (snd (processFrame mfccOf frame t s))) = silenceFrames s + 1 \<and>
         currentSpeakerId (fst (snd (processFrame mfccOf frame t s))) =
           (if silenceFrames s \<ge> SILENCE_THRESHOLD_FRAMES then None else currentSpeakerId s)"
  using processFrame_silent [where mfccOf = mfccOf and frame = frame, OF assms, of t]
  by (simp add: Let_def endCurrentSegment_closes endCurrentSegment_silenceFrames)

text \<open>
  C7 on the code. A worker is in a segment of speaker \<open>S 1\<close>, begun at 1000 ms with speech
  last heard at 1299 ms, and its silence counter is zero. After ten consecutive frames
  classified as silence, \<^verbatim>\<open>SILENCE_THRESHOLD_FRAMES\<close> of them, the counter is ten, the
  segment is still open and nothing has been posted: the test
  \<^verbatim>\<open>silenceFrames > SILENCE_THRESHOLD_FRAMES\<close> asks for one frame more. The eleventh silent
  frame closes the segment.
\<close>

theorem silence_closes_on_eleventh_frame:
  "currentSpeakerId (fst (run mfccExample
      (map (Audio quietFrame) [1400, 1500, 1600, 1700, 1800, 1900, 2000, 2100, 2200, 2300])
      inSegment)) = Some (S 1) \<and>
   snd (run mfccExample
      (map (Audio quietFrame) [1400, 1500, 1600, 1700, 1800, 1900, 2000, 2100, 2200, 2300])
      inSegment) = [] \<and>
   silenceFrames (fst (run mfccExample
      (map (Audio quietFrame) [1400, 1500, 1600, 1700, 1800, 1900, 2000, 2100, 2200, 2300])
      inSegment)) = SILENCE_THRESHOLD_FRAMES \<and>
   currentSpeakerId (fst (run mfccExample
      (map (Audio quietFrame) [1400, 1500, 1600, 1700, 1800, 1900, 2000, 2100, 2200, 2300]
         @ [Audio quietFrame 2400])
      inSegment)) = None \<and>
   snd (run mfccExample
      (map (Audio quietFrame) [1400, 1500, 1600, 1700, 1800, 1900, 2000, 2100, 2200, 2300]
         @ [Audio quietFrame 2400])
      inSegment) = [Segments [\<lparr> speakerId = S 1, startMs = 1000, endMs = 1299 \<rparr>]]"
proof -
  define ts :: "real list"
    where "ts = [1400, 1500, 1600, 1700, 1800, 1900, 2000, 2100, 2200, 2300]"
  define ms where "ms = map (Audio quietFrame) ts"
  define s10 where "s10 = fst (run mfccExample ms inSegment)"
  have m: "meyda inSegment = Some 16000" by (simp add: inSegment_def)
  have z: "silenceFrames inSegment + length ts \<le> SILENCE_THRESHOLD_FRAMES"
    by (simp add: ts_def inSegment_def initial_worker_def SILENCE_THRESHOLD_FRAMES_def)
  have r10: "run mfccExample ms inSegment = (s10, [])"
    unfolding s10_def ms_def by (simp only: quiet_frames_below_threshold [OF m z] fst_conv)
  have s10: "s10 = inSegment\<lparr>noiseFloor :=
                 fold (\<lambda>t nf. nf * 0.995 + 0.001 * 0.005) ts (noiseFloor inSegment),
               silenceFrames := silenceFrames inSegment + length ts\<rparr>"
    unfolding s10_def ms_def by (simp only: quiet_frames_below_threshold [OF m z] fst_conv)
  have f10: "currentSpeakerId s10 = Some (S 1)" "silenceFrames s10 = SILENCE_THRESHOLD_FRAMES"
    "meyda s10 = Some 16000" "segmentQueue s10 = []" "currentSegmentStartMs s10 = 1000"
    "lastSpeechTimestamp s10 = 1299"
    unfolding s10
    by (simp_all add: ts_def inSegment_def initial_worker_def SILENCE_THRESHOLD_FRAMES_def)
  have last: "run mfccExample [Audio quietFrame 2400] s10 =
     (fst (endCurrentSegment 2400 (s10\<lparr>noiseFloor := noiseFloor s10 * 0.995 + 0.001 * 0.005,
                 silenceFrames := silenceFrames s10 + 1\<rparr>)),
      [Segments [\<lparr> speakerId = S 1, startMs = 1000, endMs = 1299 \<rparr>]])"
    using quietFrame_step [OF f10(3), of 2400] f10
    by (simp add: onmessage_def Let_def SILENCE_THRESHOLD_FRAMES_def endCurrentSegment_def
          flushQueue_def)
  have r11: "run mfccExample (ms @ [Audio quietFrame 2400]) inSegment =
     (fst (endCurrentSegment 2400 (s10\<lparr>noiseFloor := noiseFloor s10 * 0.995 + 0.001 * 0.005,
                 silenceFrames := silenceFrames s10 + 1\<rparr>)),
      [Segments [\<lparr> speakerId = S 1, startMs = 1000, endMs = 1299 \<rparr>]])"
    by (simp only: run_append r10 last Let_def prod.case append_Nil)
  from r10 r11 f10 have
    "currentSpeakerId (fst (run mfccExample ms inSegment)) = Some (S 1) \<and>
     snd (run mfccExample ms inSegment) = [] \<and>
     silenceFrames (fst (run mfccExample ms inSegment)) = SILENCE_THRESHOLD_FRAMES \<and>
     currentSpeakerId (fst (run mfccExample (ms @ [Audio quietFrame 2400]) inSegment)) = None \<and>
     snd (run mfccExample (ms @ [Audio quietFrame 2400]) inSegment) =
       [Segments [\<lparr> speakerId = S 1, startMs = 1000, endMs = 1299 \<rparr>]]"
    by (simp add: endCurrentSegment_closes)
  then show ?thesis unfolding ms_def ts_def .
qed

section \<open>The clustering step\<close>

lemma fold_cosine_num:
  "length a = length b \<Longrightarrow>
   fold (\<lambda>(a, b) (dot, m1, m2).
           (jadd dot (jmul a b), jadd m1 (jmul a a), jadd m2 (jmul b b)))
        (zip (map Num a) (map Num b)) (Num d0, Num x0, Num y0) =
     (Num (d0 + sum_list (map (\<lambda>(x, y). x * y) (zip a b))),
      Num (x0 + sum_list (map (\<lambda>x. x * x) a)),
      Num (y0 + sum_list (map (\<lambda>y. y * y) b)))"
proof (induction a b arbitrary: d0 x0 y0 rule: list_induct2)
  case Nil
  then show ?case by simp
next
  case (Cons x xs y ys)
  show ?case by (simp add: Cons.IH add.assoc)
qed

lemma sum_squares_nonneg: "0 \<le> sum_list (map (\<lambda>x. x * x) (a :: real list))"
  by (induction a) simp_all

lemma cosineDistance_real:
  "cosineDistance (map Num a) (map Num b) = Num (cosineDistanceReal a b)"
proof (cases "length a = length b")
  case False
  then show ?thesis by (simp add: cosineDistance_def cosineDistanceReal_def)
next
  case True
  have na: "\<not> sum_list (map (\<lambda>x. x * x) a) < 0" and nb: "\<not> sum_list (map (\<lambda>x. x * x) b) < 0"
    using sum_squares_nonneg [of a] sum_squares_nonneg [of b] by simp_all
  show ?thesis
    using True na nb
    by (simp add: cosineDistance_def cosineDistanceReal_def fold_cosine_num [OF True] Let_def)
qed

lemma fold_jmin_num: "fold (\<lambda>x m. jmin m x) (map Num ds) (Num d) = Num (fold min ds d)"
  by (induction ds arbitrary: d) (simp_all add: min.commute)

lemma Math_min_num:
  assumes "ds \<noteq> []"
  shows "Math_min (map Num ds) = Num (Min (set ds))"
proof (cases ds)
  case Nil
  with assms show ?thesis by simp
next
  case (Cons d ds')
  have "Min (set (d # ds')) = fold min ds' d" by (rule Min.set_eq_fold)
  with Cons show ?thesis by (simp add: Math_min_def fold_jmin_num)
qed

lemma indexOf_num_Some:
  "indexOf (map Num ds) (Num v) = Some k \<Longrightarrow> k < length ds \<and> ds ! k = v \<and> (\<forall>i<k. ds ! i \<noteq> v)"
proof (induction ds arbitrary: k)
  case Nil
  then show ?case by simp
next
  case (Cons d ds)
  show ?case
  proof (cases "d = v")
    case True
    with Cons.prems show ?thesis by simp
  next
    case False
    with Cons.prems obtain j where j: "indexOf (map Num ds) (Num v) = Some j" "k = Suc j"
      by auto
    from Cons.IH [OF j(1)] False j(2) show ?thesis
      by (auto simp: nth_Cons split: nat.splits)
  qed
qed

lemma indexOf_num_mem: "v \<in> set ds \<Longrightarrow> \<exists>k. indexOf (map Num ds) (Num v) = Some k"
  by (induction ds) auto

lemma emaUpdate_prefix:
  "n \<le> length cv \<Longrightarrow> length cv = length mv \<Longrightarrow>
   fold (\<lambda>d cvec. put_js cvec d
                      (jadd (jmul (at_js cvec d) (Num (1 - alpha)))
                            (jmul (at_js (map Num mv) d) (Num alpha))))
        [0..<n] (map Num cv) =
     map Num (map2 (\<lambda>c v. c * (1 - alpha) + v * alpha) (take n cv) (take n mv) @ drop n cv)"
proof (induction n)
  case 0
  then show ?case by simp
next
  case (Suc n)
  then have n: "n < length cv" "n < length mv" by simp_all
  define P where "P = map2 (\<lambda>c v. c * (1 - alpha) + v * alpha) (take n cv) (take n mv)"
  define L where "L = map Num P @ Num (cv ! n) # map Num (drop (Suc n) cv)"
  have lenP: "length P = n" using n by (simp add: P_def)
  have IH: "fold (\<lambda>d cvec. put_js cvec d
                      (jadd (jmul (at_js cvec d) (Num (1 - alpha)))
                            (jmul (at_js (map Num mv) d) (Num alpha))))
        [0..<n] (map Num cv) = L"
    using Suc n by (simp add: L_def P_def Cons_nth_drop_Suc [symmetric])
  have lenL: "n < length L" by (simp add: L_def lenP)
  have atL: "at_js L n = Num (cv ! n)"
    using lenL by (simp add: at_js_def) (simp add: L_def nth_append lenP)
  have atM: "at_js (map Num mv) n = Num (mv ! n)"
    using n by (simp add: at_js_def)
  have putL: "put_js L n v = map Num P @ v # map Num (drop (Suc n) cv)" for v
    using lenL by (simp add: put_js_def) (simp add: L_def list_update_append lenP)
  have t: "map2 (\<lambda>c v. c * (1 - alpha) + v * alpha) (take (Suc n) cv) (take (Suc n) mv) =
             P @ [cv ! n * (1 - alpha) + mv ! n * alpha]"
    using n by (simp add: take_Suc_conv_app_nth P_def)
  show ?case
    by (simp only: upt_Suc_append [OF le0] fold_append fold.simps o_apply id_apply IH atL atM
          putL jmul.simps jadd.simps t) simp
qed

lemma emaUpdate_real:
  "length cv = length mv \<Longrightarrow>
   emaUpdate (length mv) (map Num cv) (map Num mv) =
     map Num (map2 (\<lambda>c v. c * (1 - alpha) + v * alpha) cv mv)"
  using emaUpdate_prefix [of "length cv" cv mv] by (simp add: emaUpdate_def)


lemma embed_length: "length (embed rcs) = length rcs"
  by (simp add: embed_def)

lemma embed_nth: "k < length rcs \<Longrightarrow>
   embed rcs ! k = \<lparr> id_c = fst (rcs ! k), vector = map Num (snd (rcs ! k)) \<rparr>"
  by (simp add: embed_def split_beta)

lemma embed_distances:
  "map (\<lambda>c. cosineDistance (map Num mean) (vector c)) (embed rcs) =
   map Num (map (\<lambda>(i, v). cosineDistanceReal mean v) rcs)"
  by (simp add: embed_def split_beta cosineDistance_real)

text \<open>
  C5. A clustering call with a mean vector and at least one centroid, all vectors having
  the dimension of the mean. The cosine distance to every centroid is computed. If the
  least distance is greater than \<^verbatim>\<open>CHANGE_THRESHOLD\<close> and there are fewer centroids than
  \<^verbatim>\<open>expectedSpeakers\<close>, a centroid with the next id, seeded with the vector, is appended
  and its id returned. Otherwise the centroid \<open>k\<close> of least distance, the first one among
  equals, has its vector replaced by \<open>centroid * (1 - alpha) + vector * alpha\<close> in every
  coordinate, and its id is returned.
\<close>

theorem clustering_step:
  assumes ne: "rcs \<noteq> []"
    and dims: "\<forall>(i, v) \<in> set rcs. length v = length mean"
  shows
    "(Min (set (map (\<lambda>(i, v). cosineDistanceReal mean v) rcs)) > CHANGE_THRESHOLD \<and>
        int (length rcs) < expectedSpeakers c \<longrightarrow>
      assignSpeaker c (length mean) (map Num mean) (embed rcs) =
        Inr (S (length rcs + 1), embed (rcs @ [(S (length rcs + 1), mean)]))) \<and>
     (\<not> (Min (set (map (\<lambda>(i, v). cosineDistanceReal mean v) rcs)) > CHANGE_THRESHOLD \<and>
         int (length rcs) < expectedSpeakers c) \<longrightarrow>
      (\<exists>k < length rcs.
         (\<forall>i < length rcs. cosineDistanceReal mean (snd (rcs ! k))
                              \<le> cosineDistanceReal mean (snd (rcs ! i))) \<and>
         (\<forall>i < k. cosineDistanceReal mean (snd (rcs ! k))
                     < cosineDistanceReal mean (snd (rcs ! i))) \<and>
         assignSpeaker c (length mean) (map Num mean) (embed rcs) =
           Inr (fst (rcs ! k),
                embed (rcs[k := (fst (rcs ! k),
                        map2 (\<lambda>cv v. cv * (1 - alpha) + v * alpha) (snd (rcs ! k)) mean)]))))"
proof -
  define ds where "ds = map (\<lambda>(i, v). cosineDistanceReal mean v) rcs"
  have dsne: "ds \<noteq> []" using ne by (simp add: ds_def)
  have len: "length ds = length rcs" by (simp add: ds_def)
  have nth: "ds ! i = cosineDistanceReal mean (snd (rcs ! i))" if "i < length rcs" for i
    using that by (simp add: ds_def split_beta)
  have dist: "map (\<lambda>c. cosineDistance (map Num mean) (vector c)) (embed rcs) = map Num ds"
    by (simp add: ds_def embed_distances)
  have mn: "Math_min (map Num ds) = Num (Min (set ds))" by (rule Math_min_num [OF dsne])
  have cne: "length (embed rcs) \<noteq> 0" using ne by (simp add: embed_length)
  have new: "assignSpeaker c (length mean) (map Num mean) (embed rcs) =
        Inr (S (length rcs + 1), embed (rcs @ [(S (length rcs + 1), mean)]))"
    if "Min (set ds) > CHANGE_THRESHOLD" "int (length rcs) < expectedSpeakers c"
    using that cne
    by (simp add: assignSpeaker_def dist mn Let_def embed_length) (simp add: embed_def)
  have old: "\<exists>k < length rcs.
         (\<forall>i < length rcs. cosineDistanceReal mean (snd (rcs ! k))
                              \<le> cosineDistanceReal mean (snd (rcs ! i))) \<and>
         (\<forall>i < k. cosineDistanceReal mean (snd (rcs ! k))
                     < cosineDistanceReal mean (snd (rcs ! i))) \<and>
         assignSpeaker c (length mean) (map Num mean) (embed rcs) =
           Inr (fst (rcs ! k),
                embed (rcs[k := (fst (rcs ! k),
                        map2 (\<lambda>cv v. cv * (1 - alpha) + v * alpha) (snd (rcs ! k)) mean)]))"
    if no: "\<not> (Min (set ds) > CHANGE_THRESHOLD \<and> int (length rcs) < expectedSpeakers c)"
  proof -
    have "Min (set ds) \<in> set ds" using dsne by (intro Min_in) simp_all
    then obtain k where k: "indexOf (map Num ds) (Num (Min (set ds))) = Some k"
      using indexOf_num_mem by blast
    from indexOf_num_Some [OF k] have kl: "k < length rcs" and kmin: "ds ! k = Min (set ds)"
      and first: "\<forall>i<k. ds ! i \<noteq> Min (set ds)"
      by (simp_all add: len)
    have le: "ds ! k \<le> ds ! i" if "i < length rcs" for i
      using that kmin len by (simp add: Min_le)
    have lt: "ds ! k < ds ! i" if "i < k" for i
    proof -
      from that kl have "i < length rcs" by simp
      from le [OF this] have "Min (set ds) \<le> ds ! i" by (simp only: kmin)
      moreover from first that have "ds ! i \<noteq> Min (set ds)" by blast
      ultimately show ?thesis by (simp add: kmin)
    qed
    have lk: "length (snd (rcs ! k)) = length mean"
      using dims kl by (auto simp: split_beta dest: nth_mem)
    have upd: "(embed rcs)[k := \<lparr> id_c = fst (rcs ! k), vector =
                  emaUpdate (length mean) (map Num (snd (rcs ! k))) (map Num mean) \<rparr>] =
          embed (rcs[k := (fst (rcs ! k),
                        map2 (\<lambda>cv v. cv * (1 - alpha) + v * alpha) (snd (rcs ! k)) mean)])"
      using kl lk by (simp add: emaUpdate_real) (simp add: embed_def map_update)
    have "assignSpeaker c (length mean) (map Num mean) (embed rcs) =
           Inr (fst (rcs ! k),
                embed (rcs[k := (fst (rcs ! k),
                        map2 (\<lambda>cv v. cv * (1 - alpha) + v * alpha) (snd (rcs ! k)) mean)]))"
      using no cne kl
      by (auto simp: assignSpeaker_def dist mn Let_def embed_length k upd embed_nth)
    moreover have "\<forall>i < length rcs. cosineDistanceReal mean (snd (rcs ! k))
                              \<le> cosineDistanceReal mean (snd (rcs ! i))"
    proof (intro allI impI)
      fix i assume i: "i < length rcs"
      from le [OF i] show "cosineDistanceReal mean (snd (rcs ! k))
                              \<le> cosineDistanceReal mean (snd (rcs ! i))"
        by (simp only: nth [OF i] nth [OF kl])
    qed
    moreover have "\<forall>i < k. cosineDistanceReal mean (snd (rcs ! k))
                     < cosineDistanceReal mean (snd (rcs ! i))"
    proof (intro allI impI)
      fix i assume i: "i < k"
      with kl have il: "i < length rcs" by simp
      from lt [OF i] show "cosineDistanceReal mean (snd (rcs ! k))
                     < cosineDistanceReal mean (snd (rcs ! i))"
        by (simp only: nth [OF il] nth [OF kl])
    qed
    ultimately show ?thesis using kl by blast
  qed
  from new old show ?thesis unfolding ds_def by blast
qed

lemma cdr1: "cosineDistanceReal [0, 1] [1, 0] = 1" "cosineDistanceReal [0, 1] [0, 1] = 0"
  by (simp_all add: cosineDistanceReal_def)

text \<open>The theorem at a vector orthogonal to the only centroid, which founds speaker
  \<open>S 2\<close>, and at the same vector once \<open>S 2\<close> exists, which is then matched.\<close>

theorem clustering_step_witness:
  "assignSpeaker \<lparr> expectedSpeakers = 2, sampleRate = 48000 \<rparr> 2 [Num 0, Num 1]
       (embed [(S 1, [1, 0])]) =
     Inr (S 2, embed [(S 1, [1, 0]), (S 2, [0, 1])]) \<and>
   assignSpeaker \<lparr> expectedSpeakers = 2, sampleRate = 48000 \<rparr> 2 [Num 0, Num 1]
       (embed [(S 1, [1, 0]), (S 2, [0, 1])]) =
     Inr (S 2, embed [(S 1, [1, 0]), (S 2, [0, 1])])"
proof -
  let ?c = "\<lparr> expectedSpeakers = 2, sampleRate = 48000 \<rparr>"
  have a1: "[(S 1, [1, 0 :: real])] \<noteq> []" by simp
  have a2: "\<forall>(i, v) \<in> set [(S 1, [1, 0 :: real])]. length v = length [0, 1 :: real]" by simp
  have b1: "[(S 1, [1, 0 :: real]), (S 2, [0, 1])] \<noteq> []" by simp
  have b2: "\<forall>(i, v) \<in> set [(S 1, [1, 0 :: real]), (S 2, [0, 1])]. length v = length [0, 1 :: real]"
    by simp
  have new: "assignSpeaker ?c 2 [Num 0, Num 1] (embed [(S 1, [1, 0])]) =
     Inr (S 2, embed [(S 1, [1, 0]), (S 2, [0, 1])])"
    using clustering_step [OF a1 a2, of ?c]
    by (simp add: cdr1 CHANGE_THRESHOLD_def numeral_2_eq_2)
  from clustering_step [OF b1 b2, of ?c]
  obtain k where k: "k < 2"
    "\<forall>i < 2. cosineDistanceReal [0, 1] (snd ([(S 1, [1, 0]), (S 2, [0, 1])] ! k))
                 \<le> cosineDistanceReal [0, 1] (snd ([(S 1, [1, 0 :: real]), (S 2, [0, 1])] ! i))"
    "assignSpeaker ?c 2 [Num 0, Num 1] (embed [(S 1, [1, 0]), (S 2, [0, 1])]) =
           Inr (fst ([(S 1, [1, 0 :: real]), (S 2, [0, 1])] ! k),
                embed ([(S 1, [1, 0]), (S 2, [0, 1])][k := (fst ([(S 1, [1, 0 :: real]), (S 2, [0, 1])] ! k),
                        map2 (\<lambda>cv v. cv * (1 - alpha) + v * alpha)
                          (snd ([(S 1, [1, 0 :: real]), (S 2, [0, 1])] ! k)) [0, 1])]))"
    by (auto simp: cdr1 CHANGE_THRESHOLD_def numeral_2_eq_2)
  have "k = 1"
  proof (rule ccontr)
    assume "k \<noteq> 1"
    with k(1) have "k = 0" by simp
    with k(2) [rule_format, of 1] show False by (simp add: cdr1)
  qed
  with k(3) have old: "assignSpeaker ?c 2 [Num 0, Num 1] (embed [(S 1, [1, 0]), (S 2, [0, 1])]) =
     Inr (S 2, embed [(S 1, [1, 0]), (S 2, [0, 1])])"
    by (simp add: alpha_def numeral_2_eq_2)
  from new old show ?thesis by blast
qed

section \<open>Speaker ids\<close>

lemma indexOf_less: "indexOf xs v = Some k \<Longrightarrow> k < length xs"
  by (induction xs arbitrary: k) (auto split: if_splits)

lemma sequentialIds_nth: "sequentialIds cs \<Longrightarrow> k < length cs \<Longrightarrow> id_c (cs ! k) = S (k + 1)"
proof -
  assume a: "sequentialIds cs" and k: "k < length cs"
  have "id_c (cs ! k) = map id_c cs ! k" using k by simp
  also have "\<dots> = map (\<lambda>i. S (i + 1)) [0..<length cs] ! k" using a by (simp add: sequentialIds_def)
  also have "\<dots> = S (k + 1)" using k by simp
  finally show ?thesis .
qed

lemma sequentialIds_update:
  assumes "sequentialIds cs"
  shows "sequentialIds (cs[k := (cs ! k)\<lparr>vector := v\<rparr>])"
proof -
  have "map id_c (cs[k := (cs ! k)\<lparr>vector := v\<rparr>]) = (map id_c cs)[k := id_c (cs ! k)]"
    by (simp add: map_update)
  also have "\<dots> = map id_c cs"
    by (cases "k < length cs") (simp_all add: list_update_same_conv list_update_beyond)
  finally show ?thesis using assms by (simp add: sequentialIds_def)
qed

lemma emittedIds_append: "emittedIds (a @ b) = emittedIds a \<union> emittedIds b"
  by (induction a rule: emittedIds.induct) auto

lemma sequentialIds_append:
  "sequentialIds cs \<Longrightarrow> sequentialIds (cs @ [\<lparr> id_c = S (Suc (length cs)), vector = v \<rparr>])"
  by (simp add: sequentialIds_def)

lemma assignSpeaker_invariant:
  assumes "sequentialIds cs" "int (length cs) \<le> e" "expectedSpeakers c = e" "1 \<le> e"
    "assignSpeaker c dims mean cs = Inr (sid, cs')"
  shows "sequentialIds cs' \<and> int (length cs') \<le> e \<and> sid \<in> idsUpTo e"
proof (cases "length cs = 0")
  case True
  with assms show ?thesis
    by (auto simp: assignSpeaker_def sequentialIds_def idsUpTo_def)
next
  case ne: False
  define ds where "ds = map (\<lambda>c. cosineDistance mean (vector c)) cs"
  show ?thesis
  proof (cases "jgt (Math_min ds) CHANGE_THRESHOLD \<and> int (length cs) < expectedSpeakers c")
    case True
    with ne assms(5) have r: "sid = S (length cs + 1)"
      "cs' = cs @ [\<lparr> id_c = S (length cs + 1), vector = mean \<rparr>]"
      by (auto simp: assignSpeaker_def Let_def ds_def)
    from True assms(3) have "int (length cs) + 1 \<le> e" by simp
    with r assms(1) show ?thesis
      by (simp add: sequentialIds_append idsUpTo_def)
  next
    case False
    with ne assms(5) obtain k where k: "indexOf ds (Math_min ds) = Some k"
      and r: "sid = id_c (cs ! k)"
        "cs' = cs[k := (cs ! k)\<lparr>vector := emaUpdate dims (vector (cs ! k)) mean\<rparr>]"
      by (auto simp: assignSpeaker_def Let_def ds_def split: option.splits)
    from indexOf_less [OF k] have kl: "k < length cs" by (simp add: ds_def)
    from sequentialIds_nth [OF assms(1) kl] r have "sid = S (k + 1)" by simp
    moreover from kl assms(2) have "int (k + 1) \<le> e" by simp
    ultimately have "sid \<in> idsUpTo e" by (auto simp: idsUpTo_def)
    with r assms(1,2) show ?thesis by (simp add: sequentialIds_update)
  qed
qed

lemma endCurrentSegment_invariant:
  assumes "speakerInvariant e s"
  shows "speakerInvariant e (fst (endCurrentSegment t s)) \<and>
         emittedIds (snd (endCurrentSegment t s)) \<subseteq> idsUpTo e"
  using assms
  by (auto simp: endCurrentSegment_def flushQueue_def Let_def speakerInvariant_def
      split: option.splits)

lemma flushQueue_invariant:
  assumes "speakerInvariant e s"
  shows "speakerInvariant e (fst (flushQueue s)) \<and> emittedIds (snd (flushQueue s)) \<subseteq> idsUpTo e"
  using assms by (auto simp: flushQueue_def speakerInvariant_def)

lemma speakerInvariant_fields [simp]:
  "speakerInvariant e (s\<lparr>noiseFloor := nf\<rparr>) = speakerInvariant e s"
  "speakerInvariant e (s\<lparr>silenceFrames := n\<rparr>) = speakerInvariant e s"
  "speakerInvariant e (s\<lparr>lastSpeechTimestamp := t\<rparr>) = speakerInvariant e s"
  "speakerInvariant e (s\<lparr>featureBuffer := fb\<rparr>) = speakerInvariant e s"
  "speakerInvariant e (s\<lparr>currentSegmentStartMs := t\<rparr>) = speakerInvariant e s"
  by (simp_all add: speakerInvariant_def)

lemma speakerInvariant_centroids:
  "speakerInvariant e s \<Longrightarrow> sequentialIds cs \<Longrightarrow> int (length cs) \<le> e \<Longrightarrow>
     speakerInvariant e (s\<lparr>centroids := cs\<rparr>)"
  by (simp add: speakerInvariant_def)

lemma speakerInvariant_speaker:
  "speakerInvariant e s \<Longrightarrow> sid \<in> idsUpTo e \<Longrightarrow>
     speakerInvariant e (s\<lparr>currentSpeakerId := Some sid\<rparr>)"
  by (simp add: speakerInvariant_def)

lemma processFrame_invariant:
  assumes inv: "speakerInvariant e s" and e: "1 \<le> e"
  shows "speakerInvariant e (fst (snd (processFrame f frame t s))) \<and>
         emittedIds (snd (snd (processFrame f frame t s))) \<subseteq> idsUpTo e"
proof (cases rule: processFrame_cases [of f frame t s])
  case dropped
  with inv show ?thesis by simp
next
  case (silent nf)
  with inv show ?thesis by simp
next
  case (closed nf)
  with endCurrentSegment_invariant [of e "s\<lparr>noiseFloor := nf, silenceFrames := silenceFrames s + 1\<rparr>" t]
    inv show ?thesis by simp
next
  case (speech nf fb ex)
  with inv show ?thesis by simp
next
  case (same nf fb dims mean sid cs)
  from inv have "sequentialIds (centroids s)" "int (length (centroids s)) \<le> e"
    "expectedSpeakers (cfg s) = e" by (simp_all add: speakerInvariant_def)
  from assignSpeaker_invariant [OF this e same(1)] inv same(3) show ?thesis
    by (simp add: speakerInvariant_centroids)
next
  case (changed nf fb dims mean sid cs)
  from inv have "sequentialIds (centroids s)" "int (length (centroids s)) \<le> e"
    "expectedSpeakers (cfg s) = e" by (simp_all add: speakerInvariant_def)
  from assignSpeaker_invariant [OF this e changed(1)]
  have a: "sequentialIds cs" "int (length cs) \<le> e" "sid \<in> idsUpTo e" by simp_all
  define s4 where "s4 = s\<lparr>noiseFloor := nf, silenceFrames := 0, lastSpeechTimestamp := t,
                      featureBuffer := fb, centroids := cs\<rparr>"
  have "speakerInvariant e s4" using inv a by (simp add: s4_def speakerInvariant_centroids)
  from endCurrentSegment_invariant [OF this, of t] a(3) changed(3) show ?thesis
    by (simp add: s4_def [symmetric] speakerInvariant_speaker emittedIds_append)
qed

lemma onmessage_invariant:
  assumes inv: "speakerInvariant e s" and e: "1 \<le> e" and m: "\<not> isConfig m"
  shows "speakerInvariant e (fst (onmessage f m s)) \<and>
         emittedIds (snd (onmessage f m s)) \<subseteq> idsUpTo e"
proof (cases m)
  case (Config es sr)
  with m show ?thesis by simp
next
  case (Audio frame t)
  obtain ex s1 out where p: "processFrame f frame t s = (ex, s1, out)"
    by (cases "processFrame f frame t s")
  with processFrame_invariant [OF inv e, of f frame t]
  have "speakerInvariant e s1" "emittedIds out \<subseteq> idsUpTo e" by simp_all
  moreover have "emittedIds (out @ [Error x]) = emittedIds out" for x
    by (simp add: emittedIds_append)
  ultimately show ?thesis using Audio p by (cases ex) (simp_all add: onmessage_def)
next
  case (Stop ts)
  define stopTs where "stopTs = (case ts of Some t0ms \<Rightarrow> t0ms
       | None \<Rightarrow> if lastSpeechTimestamp s \<noteq> 0 then lastSpeechTimestamp s else 0)"
  define s1 where "s1 = fst (endCurrentSegment stopTs s)"
  define s2 where "s2 = fst (flushQueue s1)"
  have i1: "speakerInvariant e s1" "emittedIds (snd (endCurrentSegment stopTs s)) \<subseteq> idsUpTo e"
    using endCurrentSegment_invariant [OF inv, of stopTs] by (simp_all add: s1_def)
  have i2: "speakerInvariant e s2" "emittedIds (snd (flushQueue s1)) \<subseteq> idsUpTo e"
    using flushQueue_invariant [OF i1(1)] by (simp_all add: s2_def)
  note app = emittedIds_append
  have "speakerInvariant e (s2\<lparr>centroids := [], featureBuffer := [], currentSpeakerId := None,
                  lastSpeechTimestamp := 0, silenceFrames := 0\<rparr>)"
    using i2(1) e by (simp add: speakerInvariant_def sequentialIds_def)
  with i1 i2 show ?thesis
    by (simp add: Stop onmessage_def Let_def split_beta stopTs_def [symmetric]
          s1_def [symmetric] s2_def [symmetric] app)
next
  case Ping
  with inv show ?thesis by (simp add: onmessage_def)
next
  case Other
  with inv show ?thesis by (simp add: onmessage_def)
qed

lemma run_invariant:
  "speakerInvariant e s \<Longrightarrow> 1 \<le> e \<Longrightarrow> \<forall>m \<in> set ms. \<not> isConfig m \<Longrightarrow>
     speakerInvariant e (fst (run f ms s)) \<and> emittedIds (snd (run f ms s)) \<subseteq> idsUpTo e"
proof (induction ms arbitrary: s)
  case Nil
  then show ?case by simp
next
  case (Cons m ms)
  note app = emittedIds_append
  from Cons.prems have m: "\<not> isConfig m" and ms: "\<forall>m \<in> set ms. \<not> isConfig m" by simp_all
  from onmessage_invariant [OF Cons.prems(1,2) m, of f]
  have 1: "speakerInvariant e (fst (onmessage f m s))"
    "emittedIds (snd (onmessage f m s)) \<subseteq> idsUpTo e" by simp_all
  from Cons.IH [OF 1(1) Cons.prems(2) ms] 1(2) show ?case
    by (simp add: split_beta Let_def app)
qed

lemma idsUpTo_card: "finite (idsUpTo e) \<and> int (card (idsUpTo e)) \<le> max e 0"
proof -
  have eq: "idsUpTo e = S ` {1..nat e}"
    by (auto simp: idsUpTo_def image_iff)
  have "card (S ` {1..nat e}) \<le> card {1..nat e}" by (rule card_image_le) simp
  then show ?thesis by (simp add: eq)
qed

lemma sequentialIds_distinct: "sequentialIds cs \<Longrightarrow> distinct (map id_c cs)"
  by (simp add: sequentialIds_def distinct_map inj_on_def)

lemma config_establishes_invariant:
  "1 \<le> e \<Longrightarrow> speakerInvariant e (fst (onmessage f (Config (Some e) sr) initial_worker))"
  by (simp add: onmessage_def orDefault_def Let_def initial_worker_def speakerInvariant_def
        sequentialIds_def)

text \<open>
  C9. A worker is configured once, with \<^verbatim>\<open>expectedSpeakers\<close> \<open>e \<ge> 1\<close>, and then receives
  any messages other than a configuration. After every number \<open>n\<close> of them there are at
  most \<open>e\<close> centroids, their ids are \<open>S 1\<close>, \<open>S 2\<close>, ... in creation order and so pairwise
  distinct, and every speaker id posted so far, in a segment or as active speaker, is one
  of \<open>S 1\<close>, ..., \<open>S e\<close>, so that at most \<open>e\<close> distinct ids have been posted.
\<close>

theorem speaker_ids_bounded:
  assumes "1 \<le> e" and "\<forall>m \<in> set ms. \<not> isConfig m"
  shows
    "int (length (centroids (fst (run f (Config (Some e) sr # take n ms) initial_worker)))) \<le> e \<and>
     map id_c (centroids (fst (run f (Config (Some e) sr # take n ms) initial_worker))) =
       map (\<lambda>i. S (i + 1))
         [0..<length (centroids (fst (run f (Config (Some e) sr # take n ms) initial_worker)))] \<and>
     distinct (map id_c (centroids (fst (run f (Config (Some e) sr # take n ms) initial_worker)))) \<and>
     emittedIds (snd (run f (Config (Some e) sr # take n ms) initial_worker))
       \<subseteq> {S k | k. 1 \<le> k \<and> int k \<le> e} \<and>
     int (card (emittedIds (snd (run f (Config (Some e) sr # take n ms) initial_worker)))) \<le> e"
proof -
  define s0 where "s0 = fst (onmessage f (Config (Some e) sr) initial_worker)"
  have out0: "snd (onmessage f (Config (Some e) sr) initial_worker) = [Ready]"
    by (simp add: onmessage_def Let_def)
  have inv0: "speakerInvariant e s0"
    unfolding s0_def by (rule config_establishes_invariant [OF assms(1)])
  have nc: "\<forall>m \<in> set (take n ms). \<not> isConfig m"
    using assms(2) by (auto dest: in_set_takeD)
  from run_invariant [OF inv0 assms(1) nc, of f]
  have inv: "speakerInvariant e (fst (run f (take n ms) s0))"
    and ids: "emittedIds (snd (run f (take n ms) s0)) \<subseteq> idsUpTo e" by simp_all
  have r: "run f (Config (Some e) sr # take n ms) initial_worker =
             (fst (run f (take n ms) s0), Ready # snd (run f (take n ms) s0))"
    using out0 by (simp add: split_beta Let_def s0_def)
  from inv have seq: "sequentialIds (centroids (fst (run f (take n ms) s0)))"
    and len: "int (length (centroids (fst (run f (take n ms) s0)))) \<le> e"
    by (simp_all add: speakerInvariant_def)
  from ids have ids': "emittedIds (Ready # snd (run f (take n ms) s0)) \<subseteq> idsUpTo e" by simp
  have fin: "finite (idsUpTo e)" and cardle: "int (card (idsUpTo e)) \<le> max e 0"
    using idsUpTo_card [of e] by simp_all
  from card_mono [OF fin ids'] cardle assms(1)
  have card: "int (card (emittedIds (Ready # snd (run f (take n ms) s0)))) \<le> e" by simp
  from seq have seq': "map id_c (centroids (fst (run f (take n ms) s0))) =
       map (\<lambda>i. S (i + 1)) [0..<length (centroids (fst (run f (take n ms) s0)))]"
    by (simp add: sequentialIds_def)
  from len seq' sequentialIds_distinct [OF seq] ids' card show ?thesis
    unfolding r fst_conv snd_conv idsUpTo_def by blast
qed

text \<open>The theorem at the example session, after its seven frames.\<close>

theorem speaker_ids_bounded_witness:
  "(1::int) \<le> 2 \<and>
   int (length (centroids (fst (run mfccExample
      (Config (Some 2) (Some 48000) # take 7 (tl exampleSession)) initial_worker)))) \<le> 2 \<and>
   int (card (emittedIds (snd (run mfccExample
      (Config (Some 2) (Some 48000) # take 7 (tl exampleSession)) initial_worker)))) \<le> 2"
proof -
  have a: "(1::int) \<le> 2" by simp
  have b: "\<forall>m \<in> set (tl exampleSession). \<not> isConfig m" by (simp add: exampleSession_def)
  from speaker_ids_bounded [OF a b, of mfccExample "Some 48000" 7] a show ?thesis by blast
qed

section \<open>Order of the finalized segments\<close>

lemma chain_append: "chain lo xs mid \<Longrightarrow> chain mid ys hi \<Longrightarrow> chain lo (xs @ ys) hi"
proof (induction xs arbitrary: lo)
  case Nil
  then show ?case by (cases ys) auto
next
  case (Cons x xs)
  then show ?case by simp
qed

lemma chain_weaken: "chain lo xs hi \<Longrightarrow> lo' \<le> lo \<Longrightarrow> hi \<le> hi' \<Longrightarrow> chain lo' xs hi'"
  by (induction xs arbitrary: lo lo') auto

lemma chain_starts: "chain lo xs hi \<Longrightarrow> \<forall>x \<in> set xs. lo \<le> startMs x"
proof (induction xs arbitrary: lo)
  case Nil
  then show ?case by simp
next
  case (Cons x xs)
  from Cons.prems have c: "chain (endMs x) xs hi" and l: "lo \<le> startMs x" "startMs x < endMs x"
    by simp_all
  from Cons.IH [OF c] l show ?case by auto
qed

lemma chain_ordered: "chain lo xs hi \<Longrightarrow> sorted (map startMs xs) \<and> nonOverlapping xs"
proof (induction xs arbitrary: lo)
  case Nil
  then show ?case by simp
next
  case (Cons x xs)
  from Cons.prems have c: "chain (endMs x) xs hi" and l: "startMs x < endMs x" by simp_all
  from chain_starts [OF c] l have "\<forall>y \<in> set xs. startMs x \<le> startMs y" by fastforce
  moreover from c have "nonOverlapping (x # xs)" using Cons.IH [OF c]
    by (cases xs) simp_all
  ultimately show ?case using Cons.IH [OF c] by simp
qed

lemma segInvariant_mono: "segInvariant tp s \<Longrightarrow> tp \<le> t \<Longrightarrow> segInvariant t s"
  by (auto simp: segInvariant_def)

lemma floorOf_mono: "segInvariant tp s \<Longrightarrow> tp \<le> t \<Longrightarrow>
    floorOf tp s \<le> floorOf t s \<and> floorOf t s \<le> t"
  by (auto simp: segInvariant_def floorOf_def)

lemma endCurrentSegment_chain:
  assumes "segInvariant tp s" "tp \<le> t"
  shows "segInvariant t (fst (endCurrentSegment t s)) \<and>
         currentSpeakerId (fst (endCurrentSegment t s)) = None \<and>
         chain (floorOf tp s) (finalized (snd (endCurrentSegment t s))) t"
  using assms
  by (auto simp: endCurrentSegment_def flushQueue_def Let_def segInvariant_def floorOf_def
      split: option.splits)

lemma segInvariant_fields [simp]:
  "segInvariant tp (s\<lparr>noiseFloor := nf\<rparr>) = segInvariant tp s"
  "segInvariant tp (s\<lparr>silenceFrames := n\<rparr>) = segInvariant tp s"
  "segInvariant tp (s\<lparr>featureBuffer := fb\<rparr>) = segInvariant tp s"
  "segInvariant tp (s\<lparr>centroids := cs\<rparr>) = segInvariant tp s"
  "segInvariant tp (s\<lparr>cfg := c\<rparr>) = segInvariant tp s"
  "segInvariant tp (s\<lparr>meyda := m\<rparr>) = segInvariant tp s"
  by (simp_all add: segInvariant_def)

lemma floorOf_fields [simp]:
  "floorOf tp (s\<lparr>noiseFloor := nf\<rparr>) = floorOf tp s"
  "floorOf tp (s\<lparr>silenceFrames := n\<rparr>) = floorOf tp s"
  "floorOf tp (s\<lparr>featureBuffer := fb\<rparr>) = floorOf tp s"
  "floorOf tp (s\<lparr>centroids := cs\<rparr>) = floorOf tp s"
  "floorOf tp (s\<lparr>lastSpeechTimestamp := x\<rparr>) = floorOf tp s"
  "floorOf tp (s\<lparr>cfg := c\<rparr>) = floorOf tp s"
  "floorOf tp (s\<lparr>meyda := m\<rparr>) = floorOf tp s"
  by (simp_all add: floorOf_def)

lemma processFrame_chain:
  assumes inv: "segInvariant tp s" and t: "tp \<le> t"
  shows "segInvariant t (fst (snd (processFrame f frame t s))) \<and>
         chain (floorOf tp s) (finalized (snd (snd (processFrame f frame t s))))
               (floorOf t (fst (snd (processFrame f frame t s))))"
proof (cases rule: processFrame_cases [of f frame t s])
  case dropped
  with segInvariant_mono [OF inv t] floorOf_mono [OF inv t] show ?thesis by simp
next
  case (silent nf)
  with segInvariant_mono [OF inv t] floorOf_mono [OF inv t] show ?thesis by simp
next
  case (closed nf)
  define s2 where "s2 = s\<lparr>noiseFloor := nf, silenceFrames := silenceFrames s + 1\<rparr>"
  have "segInvariant tp s2" using inv by (simp add: s2_def)
  from endCurrentSegment_chain [OF this t]
  have e: "segInvariant t (fst (endCurrentSegment t s2))"
    "currentSpeakerId (fst (endCurrentSegment t s2)) = None"
    "chain (floorOf tp s2) (finalized (snd (endCurrentSegment t s2))) t" by simp_all
  have "floorOf tp s2 = floorOf tp s" by (simp add: s2_def)
  moreover from e(2) have "floorOf t (fst (endCurrentSegment t s2)) = t"
    by (simp add: floorOf_def)
  moreover have "processFrame f frame t s = (None, endCurrentSegment t s2)"
    using closed by (simp only: s2_def)
  ultimately show ?thesis using e by simp
next
  case (speech nf fb ex)
  have "segInvariant t (s\<lparr>noiseFloor := nf, silenceFrames := 0, lastSpeechTimestamp := t,
               featureBuffer := fb\<rparr>)"
    using inv t by (auto simp: segInvariant_def)
  with speech floorOf_mono [OF inv t] show ?thesis by simp
next
  case (same nf fb dims mean sid cs)
  have "segInvariant t (s\<lparr>noiseFloor := nf, silenceFrames := 0, lastSpeechTimestamp := t,
               featureBuffer := fb, centroids := cs\<rparr>)"
    using inv t by (auto simp: segInvariant_def)
  with same(3) floorOf_mono [OF inv t] show ?thesis by simp
next
  case (changed nf fb dims mean sid cs)
  define s4 where "s4 = s\<lparr>noiseFloor := nf, silenceFrames := 0, lastSpeechTimestamp := t,
                      featureBuffer := fb, centroids := cs\<rparr>"
  have i4: "segInvariant t s4" using inv t by (auto simp: s4_def segInvariant_def)
  have f4: "floorOf tp s \<le> floorOf t s4" using floorOf_mono [OF inv t] by (simp add: s4_def)
  from endCurrentSegment_chain [OF i4 order_refl]
  have e: "segInvariant t (fst (endCurrentSegment t s4))"
    "chain (floorOf t s4) (finalized (snd (endCurrentSegment t s4))) t" by simp_all
  from chain_weaken [OF e(2) f4 order_refl]
  have c: "chain (floorOf tp s) (finalized (snd (endCurrentSegment t s4))) t" .
  have fin: "finalized (out @ [ActiveSpeaker sid]) = finalized out" for out
    by (induction out rule: finalized.induct) simp_all
  from e(1) have "segInvariant t ((fst (endCurrentSegment t s4))
            \<lparr>currentSpeakerId := Some sid, currentSegmentStartMs := t\<rparr>)"
    by (simp add: segInvariant_def)
  moreover have "processFrame f frame t s =
         (None,
          (fst (endCurrentSegment t s4))\<lparr>currentSpeakerId := Some sid, currentSegmentStartMs := t\<rparr>,
          snd (endCurrentSegment t s4) @ [ActiveSpeaker sid])"
    using changed(3) by (simp only: s4_def)
  ultimately show ?thesis using c
    by (simp add: fin floorOf_def)
qed


lemma finalized_append: "finalized (a @ b) = finalized a @ finalized b"
  by (induction a rule: finalized.induct) simp_all

lemma audioTimes_append: "audioTimes (a @ b) = audioTimes a @ audioTimes b"
  by (induction a rule: audioTimes.induct) simp_all

lemma onmessage_chain:
  assumes inv: "segInvariant tp s" and ns: "\<not> isStop m"
    and t: "sorted (tp # audioTimes [m])"
  shows "segInvariant (last (tp # audioTimes [m])) (fst (onmessage f m s)) \<and>
         chain (floorOf tp s) (finalized (snd (onmessage f m s)))
               (floorOf (last (tp # audioTimes [m])) (fst (onmessage f m s)))"
proof (cases m)
  case (Config es sr)
  with inv show ?thesis by (simp add: onmessage_def orDefault_def Let_def)
next
  case (Audio frame t0)
  with t have le: "tp \<le> t0" by simp
  obtain ex s1 out where p: "processFrame f frame t0 s = (ex, s1, out)"
    by (cases "processFrame f frame t0 s")
  from processFrame_chain [OF inv le, of f frame] p
  have "segInvariant t0 s1" "chain (floorOf tp s) (finalized out) (floorOf t0 s1)" by simp_all
  with Audio p show ?thesis
    by (cases ex) (simp_all add: onmessage_def finalized_append)
next
  case (Stop ts)
  with ns show ?thesis by simp
next
  case Ping
  with inv show ?thesis by (simp add: onmessage_def)
next
  case Other
  with inv show ?thesis by (simp add: onmessage_def)
qed

lemma run_chain:
  "segInvariant tp s \<Longrightarrow> sorted (tp # audioTimes ms) \<Longrightarrow> \<forall>m \<in> set ms. \<not> isStop m \<Longrightarrow>
     segInvariant (last (tp # audioTimes ms)) (fst (run f ms s)) \<and>
     chain (floorOf tp s) (finalized (snd (run f ms s)))
           (floorOf (last (tp # audioTimes ms)) (fst (run f ms s)))"
proof (induction ms arbitrary: tp s)
  case Nil
  then show ?case by (simp add: floorOf_def)
next
  case (Cons m ms)
  define t1 where "t1 = last (tp # audioTimes [m])"
  define s1 where "s1 = fst (onmessage f m s)"
  have times: "audioTimes (m # ms) = audioTimes [m] @ audioTimes ms"
    using audioTimes_append [of "[m]" ms] by simp
  from Cons.prems(2) have srt: "sorted (tp # audioTimes [m] @ audioTimes ms)"
    by (simp only: times)
  then have s1srt: "sorted (tp # audioTimes [m])" and s2srt: "sorted (t1 # audioTimes ms)"
    by (cases m; simp add: t1_def)+
  from Cons.prems(3) have ns: "\<not> isStop m" and nss: "\<forall>m \<in> set ms. \<not> isStop m" by simp_all
  from onmessage_chain [OF Cons.prems(1) ns s1srt, of f]
  have i1: "segInvariant t1 s1"
    and c1: "chain (floorOf tp s) (finalized (snd (onmessage f m s))) (floorOf t1 s1)"
    by (simp_all add: t1_def s1_def)
  from Cons.IH [OF i1 s2srt nss]
  have i2: "segInvariant (last (t1 # audioTimes ms)) (fst (run f ms s1))"
    and c2: "chain (floorOf t1 s1) (finalized (snd (run f ms s1)))
               (floorOf (last (t1 # audioTimes ms)) (fst (run f ms s1)))"
    by simp_all
  have l: "last (tp # audioTimes (m # ms)) = last (t1 # audioTimes ms)"
    by (cases m; simp add: t1_def)
  have r: "run f (m # ms) s = (fst (run f ms s1), snd (onmessage f m s) @ snd (run f ms s1))"
    by (simp add: split_beta Let_def s1_def)
  from i2 chain_append [OF c1 c2] show ?case
    by (simp only: l r fst_conv snd_conv finalized_append)
qed

lemma stop_chain:
  assumes "segInvariant tp s"
  shows "\<exists>hi. chain (floorOf tp s) (finalized (snd (onmessage f (Stop ts) s))) hi"
proof -
  define stopTs where "stopTs = (case ts of Some t0ms \<Rightarrow> t0ms
       | None \<Rightarrow> if lastSpeechTimestamp s \<noteq> 0 then lastSpeechTimestamp s else 0)"
  have q: "segmentQueue (fst (endCurrentSegment stopTs s)) = []"
    using assms
    by (simp add: endCurrentSegment_def flushQueue_def Let_def segInvariant_def
          split: option.splits)
  have out: "snd (onmessage f (Stop ts) s) = snd (endCurrentSegment stopTs s)"
    using q by (simp add: onmessage_def Let_def split_beta stopTs_def [symmetric] flushQueue_def)
  show ?thesis
  proof (cases "currentSpeakerId s")
    case None
    then have "chain (floorOf tp s) (finalized (snd (endCurrentSegment stopTs s))) (floorOf tp s)"
      by (simp add: endCurrentSegment_def)
    then show ?thesis unfolding out by blast
  next
    case (Some sp)
    define endTime where
      "endTime = (if lastSpeechTimestamp s > 0 then lastSpeechTimestamp s else stopTs)"
    show ?thesis
    proof (cases "endTime > currentSegmentStartMs s")
      case True
      with Some assms
      have "chain (floorOf tp s) (finalized (snd (endCurrentSegment stopTs s))) endTime"
        by (simp add: endCurrentSegment_def flushQueue_def Let_def floorOf_def segInvariant_def
              endTime_def)
      then show ?thesis unfolding out by blast
    next
      case False
      with Some assms
      have "chain (floorOf tp s) (finalized (snd (endCurrentSegment stopTs s))) (floorOf tp s)"
        by (simp add: endCurrentSegment_def flushQueue_def Let_def floorOf_def segInvariant_def
              endTime_def)
      then show ?thesis unfolding out by blast
    qed
  qed
qed

text \<open>
  C8. A fresh worker receives messages whose audio frames carry timestamps in
  non-decreasing order, a \<^verbatim>\<open>stop\<close> coming last if at all. The finalized segments it posts
  are then sorted by \<^verbatim>\<open>startMs\<close> and do not overlap: each ends no later than the next one
  starts.
\<close>

theorem finalized_segments_ordered:
  assumes "sorted (audioTimes ms)" and "stopOnlyLast ms"
  shows "sorted (map startMs (finalized (snd (run f ms initial_worker)))) \<and>
         nonOverlapping (finalized (snd (run f ms initial_worker)))"
proof -
  define tp where "tp = (case audioTimes ms of [] \<Rightarrow> 0 | t # ts \<Rightarrow> t)"
  have inv0: "segInvariant tp initial_worker"
    by (simp add: segInvariant_def initial_worker_def)
  have srt: "sorted (tp # audioTimes ms)"
    using assms(1) by (cases "audioTimes ms") (simp_all add: tp_def)
  have "\<exists>hi. chain (floorOf tp initial_worker) (finalized (snd (run f ms initial_worker))) hi"
  proof (cases "ms = [] \<or> \<not> isStop (last ms)")
    case True
    with assms(2) have "\<forall>m \<in> set ms. \<not> isStop m"
      by (cases ms rule: rev_cases) (auto simp: stopOnlyLast_def)
    from run_chain [OF inv0 srt this, of f] show ?thesis by blast
  next
    case False
    then obtain pre ts where ms: "ms = pre @ [Stop ts]"
      by (cases ms rule: rev_cases; cases "last ms") auto
    with assms(2) have ns: "\<forall>m \<in> set pre. \<not> isStop m" by (simp add: stopOnlyLast_def)
    have "audioTimes ms = audioTimes pre" by (simp add: ms audioTimes_append)
    with srt have srt': "sorted (tp # audioTimes pre)" by simp
    define s1 where "s1 = fst (run f pre initial_worker)"
    define t1 where "t1 = last (tp # audioTimes pre)"
    from run_chain [OF inv0 srt' ns, of f]
    have i1: "segInvariant t1 s1"
      and c1: "chain (floorOf tp initial_worker) (finalized (snd (run f pre initial_worker)))
                 (floorOf t1 s1)"
      by (simp_all add: s1_def t1_def)
    from stop_chain [OF i1, of f ts] obtain hi where
      c2: "chain (floorOf t1 s1) (finalized (snd (onmessage f (Stop ts) s1))) hi" by blast
    have "snd (run f ms initial_worker) =
            snd (run f pre initial_worker) @ snd (onmessage f (Stop ts) s1)"
      by (simp add: ms run_append split_beta Let_def s1_def)
    with chain_append [OF c1 c2] show ?thesis by (auto simp: finalized_append)
  qed
  then obtain hi where
    "chain (floorOf tp initial_worker) (finalized (snd (run f ms initial_worker))) hi" by blast
  from chain_ordered [OF this] show ?thesis .
qed

lemma cd_same: "cosineDistance [Num 1, Num 0] [Num 1, Num 0] = Num 0"
  by (simp add: cosineDistance_def)

text \<open>The example session posts one segment, from the sixth frame, where the window has
  filled and speaker \<open>S 1\<close> is founded, to the seventh, the last speech heard.\<close>

lemma example_session_segments:
  "finalized (snd (run mfccExample exampleSession initial_worker)) =
     [\<lparr> speakerId = S 1, startMs = 1425, endMs = 1510 \<rparr>]"
  by (simp add: exampleSession_def onmessage_def orDefault_def initial_worker_def Let_def
     processFrame_def loudFrame_def rms_single mfccExample_def ABS_MIN_def pushFeature_def
     MAX_FEATURE_BUFFER_LENGTH_def endCurrentSegment_def flushQueue_def assignSpeaker_def
     currentMean_def cd_same Math_min_def CHANGE_THRESHOLD_def emaUpdate_def at_js_def
     put_js_def alpha_def upt_rec)

theorem finalized_segments_ordered_witness:
  "sorted (audioTimes exampleSession) \<and>
   sorted (map startMs (finalized (snd (run mfccExample exampleSession initial_worker)))) \<and>
   nonOverlapping (finalized (snd (run mfccExample exampleSession initial_worker)))"
proof -
  have a: "sorted (audioTimes exampleSession)" by (simp add: exampleSession_def)
  have b: "stopOnlyLast exampleSession" by (simp add: exampleSession_def stopOnlyLast_def)
  from finalized_segments_ordered [OF a b, of mfccExample] a show ?thesis by blast
qed

section \<open>Heartbeat and restart\<close>

text \<open>
  C2, as the code has it. A heartbeat tick that finds the last ping answered posts the
  next ping and restarts nothing. A tick that finds it unanswered, one missed pong,
  restarts at once while the counter is below \<^verbatim>\<open>MAX_RESTARTS\<close>: a new worker, the
  caller's segments and active speaker reset, the counter one higher. With the
  counter at \<^verbatim>\<open>MAX_RESTARTS\<close>, a tick that finds the ping unanswered restarts nothing,
  clears the heartbeat and writes a warning and one error to the console; nothing of
  what the caller sees changes. With the heartbeat cleared a tick does nothing. A pong
  sets the counter to zero.
\<close>

theorem heartbeat_policy:
  "(heartbeat u \<and> gotPong u \<longrightarrow>
      heartbeatTick u = u\<lparr>gotPong := False, pingsPosted := pingsPosted u + 1\<rparr>) \<and>
   (heartbeat u \<and> \<not> gotPong u \<and> restartAttempts u < MAX_RESTARTS \<longrightarrow>
      workersStarted (heartbeatTick u) = workersStarted u + 1 \<and>
      restartAttempts (heartbeatTick u) = restartAttempts u + 1 \<and>
      segmentsRef (heartbeatTick u) = [] \<and>
      activeSpeakerState (heartbeatTick u) = None \<and>
      gotPong (heartbeatTick u) \<and> heartbeat (heartbeatTick u)) \<and>
   (heartbeat u \<and> \<not> gotPong u \<and> restartAttempts u \<ge> MAX_RESTARTS \<longrightarrow>
      heartbeatTick u =
        u\<lparr>console := console u @ [WarnUnresponsive, ErrorRestartFailed], heartbeat := False\<rparr>) \<and>
   (\<not> heartbeat u \<longrightarrow> heartbeatTick u = u) \<and>
   restartAttempts (workerMessage Pong u) = 0 \<and> gotPong (workerMessage Pong u)"
  by (simp add: heartbeatTick_def start_def stopDiarization_def workerMessage_def Let_def)

text \<open>The theorem at the start of a session, after one tick, after seven ticks without a
  pong and after eight.\<close>

theorem heartbeat_policy_witness:
  "heartbeat sessionStart \<and> gotPong sessionStart \<and>
   heartbeatTick sessionStart = sessionStart\<lparr>gotPong := False, pingsPosted := 1\<rparr> \<and>
   heartbeat (supervise [Tick] sessionStart) \<and> \<not> gotPong (supervise [Tick] sessionStart) \<and>
   restartAttempts (supervise [Tick] sessionStart) < MAX_RESTARTS \<and>
   workersStarted (heartbeatTick (supervise [Tick] sessionStart)) = 2 \<and>
   restartAttempts (heartbeatTick (supervise [Tick] sessionStart)) = 1 \<and>
   heartbeat (supervise [Tick, Tick, Tick, Tick, Tick, Tick, Tick] sessionStart) \<and>
   \<not> gotPong (supervise [Tick, Tick, Tick, Tick, Tick, Tick, Tick] sessionStart) \<and>
   restartAttempts (supervise [Tick, Tick, Tick, Tick, Tick, Tick, Tick] sessionStart)
     \<ge> MAX_RESTARTS \<and>
   workersStarted (heartbeatTick
     (supervise [Tick, Tick, Tick, Tick, Tick, Tick, Tick] sessionStart)) = 4 \<and>
   \<not> heartbeat (heartbeatTick
     (supervise [Tick, Tick, Tick, Tick, Tick, Tick, Tick] sessionStart)) \<and>
   heartbeatTick (heartbeatTick
     (supervise [Tick, Tick, Tick, Tick, Tick, Tick, Tick] sessionStart)) =
   heartbeatTick (supervise [Tick, Tick, Tick, Tick, Tick, Tick, Tick] sessionStart)"
  using heartbeat_policy [of sessionStart]
    heartbeat_policy [of "supervise [Tick] sessionStart"]
    heartbeat_policy [of "supervise [Tick, Tick, Tick, Tick, Tick, Tick, Tick] sessionStart"]
    heartbeat_policy [of "heartbeatTick
      (supervise [Tick, Tick, Tick, Tick, Tick, Tick, Tick] sessionStart)"]
  by (simp add: sessionStart_def heartbeatTick_def start_def stopDiarization_def Let_def
        MAX_RESTARTS_def)

text \<open>C2 as stated fails: the first tick posts a ping, and the second, finding it
  unanswered, restarts the worker and counts one restart; and when the restarts are
  used up, after eight ticks without a pong, the console holds the error and the caller
  has been told nothing but the empty segment list of each start.\<close>

theorem one_missed_pong_restarts:
  "workersStarted sessionStart = 1 \<and>
   workersStarted (supervise [Tick, Tick] sessionStart) = 2 \<and>
   restartAttempts (supervise [Tick, Tick] sessionStart) = 1 \<and>
   console (supervise [Tick, Tick, Tick, Tick, Tick, Tick, Tick, Tick] sessionStart) =
     [WarnUnresponsive, LogRestartAttempt 1, WarnUnresponsive, LogRestartAttempt 2,
      WarnUnresponsive, LogRestartAttempt 3, WarnUnresponsive, ErrorRestartFailed] \<and>
   onNewSegmentsCalls (supervise [Tick, Tick, Tick, Tick, Tick, Tick, Tick, Tick] sessionStart) =
     [[], [], [], []] \<and>
   activeSpeakerState (supervise [Tick, Tick, Tick, Tick, Tick, Tick, Tick, Tick] sessionStart) = None"
  by (simp add: sessionStart_def heartbeatTick_def start_def stopDiarization_def Let_def MAX_RESTARTS_def)

section \<open>The stop message\<close>

text \<open>
  C10. Processing a \<^verbatim>\<open>stop\<close> message resets the clustering and segment state
  (centroids, feature buffer, current speaker id, last speech timestamp, silence frame
  counter) and leaves the adaptive noise floor at its last adapted value: the next
  session handled by the same worker starts from that noise floor, not from the initial
  baseline.
\<close>

theorem stop_resets_all_but_noiseFloor:
  "centroids (fst (onmessage mfccOf (Stop t) s)) = [] \<and>
   featureBuffer (fst (onmessage mfccOf (Stop t) s)) = [] \<and>
   currentSpeakerId (fst (onmessage mfccOf (Stop t) s)) = None \<and>
   lastSpeechTimestamp (fst (onmessage mfccOf (Stop t) s)) = 0 \<and>
   silenceFrames (fst (onmessage mfccOf (Stop t) s)) = 0 \<and>
   noiseFloor (fst (onmessage mfccOf (Stop t) s)) = noiseFloor s"
  by (simp add: onmessage_def endCurrentSegment_def flushQueue_def Let_def
           split: option.splits prod.splits if_splits)

text \<open>The example session ends with a \<^verbatim>\<open>stop\<close>; the noise floor it leaves is above the
  initial baseline.\<close>

lemma stop_example_noiseFloor:
  "noiseFloor (fst (run mfccExample exampleSession initial_worker)) > noiseFloor initial_worker"
  by (simp add: exampleSession_def onmessage_def orDefault_def initial_worker_def Let_def
     processFrame_def loudFrame_def rms_single mfccExample_def ABS_MIN_def pushFeature_def
     MAX_FEATURE_BUFFER_LENGTH_def endCurrentSegment_def flushQueue_def assignSpeaker_def
     currentMean_def cd_same Math_min_def CHANGE_THRESHOLD_def emaUpdate_def at_js_def
     put_js_def alpha_def upt_rec)

end
